theory Spec2Isabelle
  imports Main "HOL-Library.Word"
begin

unbundle bit_operations_syntax

section \<open>Memory model\<close>

text \<open>
  The FIFO functions of \<^verbatim>\<open>fifo.c\<close> work on raw pointers into caller-supplied storage.
  The model keeps one flat, byte-addressed memory. A pointer is a byte address, the null
  pointer is address 0. A pointer to a FIFO descriptor is an \<open>option\<close>: \<open>None\<close> is the
  null pointer, \<open>Some f\<close> points to the descriptor \<open>f\<close>; descriptors are kept apart from
  the byte memory. Every function returns its \<^verbatim>\<open>int\<close> status together with the
  descriptor and the memory it leaves.

  The functions that compute a product of two 16-bit counts, a pointer difference or a
  quotient return an \<open>option\<close>: \<open>None\<close> where that computation is undefined in C, \<open>Some\<close>
  of the status, descriptor and memory otherwise. The undefined computations are
  \<^item> a product of two \<^verbatim>\<open>uint16_t\<close> operands (\<^verbatim>\<open>m * entry_size\<close>, \<^verbatim>\<open>entry_size * size\<close>,
    \<^verbatim>\<open>max_size * entry_size\<close>), which C computes in \<^verbatim>\<open>int\<close>, above \<^verbatim>\<open>INT_MAX\<close>;
  \<^item> the difference \<^verbatim>\<open>limit_ptr - tail_ptr\<close> (or \<^verbatim>\<open>limit_ptr - head_ptr\<close>) with the pointer
    past the limit, which would be negative and go to \<^verbatim>\<open>memcpy\<close> as a \<^verbatim>\<open>size_t\<close>;
  \<^item> the division by an \<^verbatim>\<open>entry_size\<close> of zero.
  Where the difference is defined it is the subtraction on \<open>nat\<close>. \<^verbatim>\<open>ptrdiff_t\<close>, \<^verbatim>\<open>size_t\<close> and
  the pointers are wider than \<^verbatim>\<open>int\<close>: sums of an address and a length and products of a
  pointer difference with \<^verbatim>\<open>entry_size\<close> are not bounded. The 16-bit counters \<^verbatim>\<open>max_size\<close>,
  \<^verbatim>\<open>free_size\<close> and \<^verbatim>\<open>m\<close> are 16-bit words and wrap; the comparison
  \<^verbatim>\<open>m > max_size - free_size\<close> of the byte buffer is made in \<^verbatim>\<open>int\<close>, as C promotes its
  operands. Reads and writes outside the caller's arrays are not tracked: a copy that
  runs past the end of an array reaches the addresses that follow in the flat memory.
\<close>

type_synonym addr = nat
type_synonym mem = "addr \<Rightarrow> 8 word"

abbreviation (input) NULL :: addr where
  "NULL \<equiv> 0"

text \<open>\<^verbatim>\<open>INT_MAX\<close> of \<^verbatim>\<open>limits.h\<close>, for an \<^verbatim>\<open>int\<close> of 32 bits.\<close>

definition INT_MAX :: nat where
  "INT_MAX = 2147483647"

fun read_bytes :: "mem \<Rightarrow> addr \<Rightarrow> nat \<Rightarrow> 8 word list" where
  "read_bytes mem a 0 = []"
| "read_bytes mem a (Suc n) = mem a # read_bytes mem (Suc a) n"

fun write_bytes :: "mem \<Rightarrow> addr \<Rightarrow> 8 word list \<Rightarrow> mem" where
  "write_bytes mem a [] = mem"
| "write_bytes mem a (b # bs) = write_bytes (mem(a := b)) (Suc a) bs"

text \<open>\<^verbatim>\<open>memcpy(dst, src, n)\<close>: the \<open>n\<close> source bytes are read, then written at \<open>dst\<close>
  (C leaves overlapping regions undefined).\<close>

definition memcpy :: "mem \<Rightarrow> addr \<Rightarrow> addr \<Rightarrow> nat \<Rightarrow> mem" where
  "memcpy mem dst src n = write_bytes mem dst (read_bytes mem src n)"

definition memset :: "mem \<Rightarrow> addr \<Rightarrow> 8 word \<Rightarrow> nat \<Rightarrow> mem" where
  "memset mem dst c n = write_bytes mem dst (replicate n c)"

text \<open>Loads and stores of \<^verbatim>\<open>uint16_t\<close> and \<^verbatim>\<open>uint32_t\<close> objects, least significant
  byte first.\<close>

definition load_u16 :: "mem \<Rightarrow> addr \<Rightarrow> 16 word" where
  "load_u16 mem a = ucast (mem a) OR push_bit 8 (ucast (mem (a + 1)))"

definition store_u16 :: "mem \<Rightarrow> addr \<Rightarrow> 16 word \<Rightarrow> mem" where
  "store_u16 mem a v = write_bytes mem a [ucast v, ucast (drop_bit 8 v)]"

definition load_u32 :: "mem \<Rightarrow> addr \<Rightarrow> 32 word" where
  "load_u32 mem a =
     ucast (mem a) OR push_bit 8 (ucast (mem (a + 1))) OR
     push_bit 16 (ucast (mem (a + 2))) OR push_bit 24 (ucast (mem (a + 3)))"

definition store_u32 :: "mem \<Rightarrow> addr \<Rightarrow> 32 word \<Rightarrow> mem" where
  "store_u32 mem a v =
     write_bytes mem a
       [ucast v, ucast (drop_bit 8 v), ucast (drop_bit 16 v), ucast (drop_bit 24 v)]"

text \<open>Arrays of \<^verbatim>\<open>uint16_t\<close> and \<^verbatim>\<open>uint32_t\<close> objects: storing a list of values one after
  the other, and loading \<open>n\<close> values.\<close>

fun store_u16s :: "mem \<Rightarrow> addr \<Rightarrow> 16 word list \<Rightarrow> mem" where
  "store_u16s mem a [] = mem"
| "store_u16s mem a (v # vs) = store_u16s (store_u16 mem a v) (a + 2) vs"

fun load_u16s :: "mem \<Rightarrow> addr \<Rightarrow> nat \<Rightarrow> 16 word list" where
  "load_u16s mem a 0 = []"
| "load_u16s mem a (Suc n) = load_u16 mem a # load_u16s mem (a + 2) n"

fun store_u32s :: "mem \<Rightarrow> addr \<Rightarrow> 32 word list \<Rightarrow> mem" where
  "store_u32s mem a [] = mem"
| "store_u32s mem a (v # vs) = store_u32s (store_u32 mem a v) (a + 4) vs"

fun load_u32s :: "mem \<Rightarrow> addr \<Rightarrow> nat \<Rightarrow> 32 word list" where
  "load_u32s mem a 0 = []"
| "load_u32s mem a (Suc n) = load_u32 mem a # load_u32s mem (a + 4) n"

section \<open>Descriptors\<close>

text \<open>\<^verbatim>\<open>fifo_uint8_TD\<close>, \<^verbatim>\<open>fifo_uint16_TD\<close> and \<^verbatim>\<open>fifo_uint32_TD\<close> have the same
  fields and differ in the pointee type only; the four pointers are byte addresses here,
  so one record serves the three. \<^verbatim>\<open>fifo_common_TD\<close> adds \<^verbatim>\<open>entry_size\<close>.\<close>

record fifo_TD =
  buffer :: addr
  head_ptr :: addr
  tail_ptr :: addr
  limit_ptr :: addr
  max_size :: "16 word"
  free_size :: "16 word"

type_synonym fifo_uint8_TD = fifo_TD
type_synonym fifo_uint16_TD = fifo_TD
type_synonym fifo_uint32_TD = fifo_TD

record fifo_common_TD = fifo_TD +
  entry_size :: "16 word"

section \<open>uint8_t FIFO buffer\<close>

definition fifo_uint8_clear ::
  "fifo_uint8_TD option \<Rightarrow> mem \<Rightarrow> int \<times> fifo_uint8_TD option \<times> mem" where
  "fifo_uint8_clear fifo mem =
     (case fifo of
        None \<Rightarrow> (- 1, fifo, mem)
      | Some f \<Rightarrow>
          let mem1 = memset mem (buffer f) 0 (unat (max_size f));
              f1 = f\<lparr>head_ptr := buffer f\<rparr>;
              f2 = f1\<lparr>tail_ptr := buffer f1\<rparr>;
              f3 = f2\<lparr>free_size := max_size f2\<rparr>
          in (0, Some f3, mem1))"

definition fifo_uint8_pop ::
  "fifo_uint8_TD option \<Rightarrow> addr \<Rightarrow> mem \<Rightarrow> int \<times> fifo_uint8_TD option \<times> mem" where
  "fifo_uint8_pop fifo val mem =
     (case fifo of
        None \<Rightarrow> (- 1, fifo, mem)
      | Some f \<Rightarrow>
          if val = NULL then (- 2, fifo, mem)
          else if free_size f = max_size f then (- 3, fifo, mem)
          else
            let mem1 = mem(val := mem (head_ptr f));
                f1 = f\<lparr>head_ptr := head_ptr f + 1\<rparr>;
                f2 = f1\<lparr>free_size := free_size f1 + 1\<rparr>;
                f3 = (if limit_ptr f2 \<le> head_ptr f2 then f2\<lparr>head_ptr := buffer f2\<rparr> else f2)
            in (0, Some f3, mem1))"

definition fifo_uint8_pop_mul ::
  "fifo_uint8_TD option \<Rightarrow> addr \<Rightarrow> 16 word \<Rightarrow> mem \<Rightarrow>
     (int \<times> fifo_uint8_TD option \<times> mem) option" where
  "fifo_uint8_pop_mul fifo pop_buffer m mem =
     (case fifo of
        None \<Rightarrow> Some (- 1, fifo, mem)
      | Some f \<Rightarrow>
          if pop_buffer = NULL then Some (- 2, fifo, mem)
          else if m = 0 then Some (- 3, fifo, mem)
          else if uint (max_size f) - uint (free_size f) < uint m then Some (- 4, fifo, mem)
          else
            let f1 = f\<lparr>free_size := free_size f + m\<rparr>;
                limit = head_ptr f1 + unat m
            in
              if limit_ptr f1 \<le> limit \<and> limit_ptr f1 < head_ptr f1 then None
              else
                let (mem1, pop_buffer1, m1, f2) =
                      (if limit_ptr f1 \<le> limit then
                         (memcpy mem pop_buffer (head_ptr f1) (limit_ptr f1 - head_ptr f1),
                          pop_buffer + (limit_ptr f1 - head_ptr f1),
                          m - of_nat (limit_ptr f1 - head_ptr f1),
                          f1\<lparr>head_ptr := buffer f1\<rparr>)
                       else (mem, pop_buffer, m, f1));
                    mem2 = memcpy mem1 pop_buffer1 (head_ptr f2) (unat m1);
                    f3 = f2\<lparr>head_ptr := head_ptr f2 + unat m1\<rparr>
                in Some (0, Some f3, mem2))"

definition fifo_uint8_push ::
  "fifo_uint8_TD option \<Rightarrow> 8 word \<Rightarrow> mem \<Rightarrow> int \<times> fifo_uint8_TD option \<times> mem" where
  "fifo_uint8_push fifo val mem =
     (case fifo of
        None \<Rightarrow> (- 1, fifo, mem)
      | Some f \<Rightarrow>
          if free_size f = 0 then (- 2, fifo, mem)
          else
            let mem1 = mem(tail_ptr f := val);
                f1 = f\<lparr>tail_ptr := tail_ptr f + 1\<rparr>;
                f2 = f1\<lparr>free_size := free_size f1 - 1\<rparr>;
                f3 = (if limit_ptr f2 \<le> tail_ptr f2 then f2\<lparr>tail_ptr := buffer f2\<rparr> else f2)
            in (0, Some f3, mem1))"

definition fifo_uint8_push_mul ::
  "fifo_uint8_TD option \<Rightarrow> addr \<Rightarrow> 16 word \<Rightarrow> mem \<Rightarrow>
     (int \<times> fifo_uint8_TD option \<times> mem) option" where
  "fifo_uint8_push_mul fifo push_buffer m mem =
     (case fifo of
        None \<Rightarrow> Some (- 1, fifo, mem)
      | Some f \<Rightarrow>
          if push_buffer = NULL then Some (- 2, fifo, mem)
          else if m = 0 then Some (- 3, fifo, mem)
          else if free_size f < m then Some (- 4, fifo, mem)
          else
            let f1 = f\<lparr>free_size := free_size f - m\<rparr>;
                limit = tail_ptr f1 + unat m
            in
              if limit_ptr f1 \<le> limit \<and> limit_ptr f1 < tail_ptr f1 then None
              else
                let (mem1, push_buffer1, m1, f2) =
                      (if limit_ptr f1 \<le> limit then
                         (memcpy mem (tail_ptr f1) push_buffer (limit_ptr f1 - tail_ptr f1),
                          push_buffer + (limit_ptr f1 - tail_ptr f1),
                          m - of_nat (limit_ptr f1 - tail_ptr f1),
                          f1\<lparr>tail_ptr := buffer f1\<rparr>)
                       else (mem, push_buffer, m, f1));
                    mem2 = memcpy mem1 (tail_ptr f2) push_buffer1 (unat m1);
                    f3 = f2\<lparr>tail_ptr := tail_ptr f2 + unat m1\<rparr>
                in Some (0, Some f3, mem2))"

text \<open>The path of \<^verbatim>\<open>fifo_uint8_push_mul\<close> that returns 0, statement by statement: the
  descriptor and the memory after \<^verbatim>\<open>free_size -= m\<close> and after every later statement that
  changes one of them, in the order of the source. The last entry is what the function
  leaves.\<close>

definition fifo_uint8_push_mul_steps ::
  "fifo_uint8_TD \<Rightarrow> addr \<Rightarrow> 16 word \<Rightarrow> mem \<Rightarrow> (fifo_uint8_TD \<times> mem) list" where
  "fifo_uint8_push_mul_steps f push_buffer m mem =
     (let f1 = f\<lparr>free_size := free_size f - m\<rparr>;
          limit = tail_ptr f1 + unat m
      in
        if limit_ptr f1 \<le> limit then
          let mem1 = memcpy mem (tail_ptr f1) push_buffer (limit_ptr f1 - tail_ptr f1);
              push_buffer1 = push_buffer + (limit_ptr f1 - tail_ptr f1);
              m1 = m - of_nat (limit_ptr f1 - tail_ptr f1);
              f2 = f1\<lparr>tail_ptr := buffer f1\<rparr>;
              mem2 = memcpy mem1 (tail_ptr f2) push_buffer1 (unat m1);
              f3 = f2\<lparr>tail_ptr := tail_ptr f2 + unat m1\<rparr>
          in [(f1, mem), (f1, mem1), (f2, mem1), (f2, mem2), (f3, mem2)]
        else
          let mem2 = memcpy mem (tail_ptr f1) push_buffer (unat m);
              f3 = f1\<lparr>tail_ptr := tail_ptr f1 + unat m\<rparr>
          in [(f1, mem), (f1, mem2), (f3, mem2)])"

definition fifo_uint8_init ::
  "fifo_uint8_TD option \<Rightarrow> addr \<Rightarrow> 16 word \<Rightarrow> bool \<Rightarrow> mem \<Rightarrow>
     int \<times> fifo_uint8_TD option \<times> mem" where
  "fifo_uint8_init fifo buf sz clear_flag mem =
     (case fifo of
        None \<Rightarrow> (- 1, fifo, mem)
      | Some f \<Rightarrow>
          if buf = NULL then (- 2, fifo, mem)
          else if sz = 0 then (- 3, fifo, mem)
          else
            let f1 = f\<lparr>buffer := buf, head_ptr := buf, tail_ptr := buf,
                       limit_ptr := buf + unat sz, max_size := sz, free_size := sz\<rparr>;
                mem1 = (if clear_flag then memset mem buf 0 (unat sz) else mem)
            in (0, Some f1, mem1))"

section \<open>uint16_t FIFO buffer\<close>

text \<open>Arithmetic on a \<^verbatim>\<open>uint16_t *\<close> counts elements of two bytes: \<^verbatim>\<open>p + m\<close> is the byte
  address \<open>p + 2 * m\<close>, \<^verbatim>\<open>p++\<close> adds 2, and \<^verbatim>\<open>limit_ptr - p\<close> is the byte distance divided
  by 2. The lengths given to \<^verbatim>\<open>memcpy\<close> and \<^verbatim>\<open>memset\<close> are byte counts, as written in the source.\<close>

definition fifo_uint16_clear ::
  "fifo_uint16_TD option \<Rightarrow> mem \<Rightarrow> int \<times> fifo_uint16_TD option \<times> mem" where
  "fifo_uint16_clear fifo mem =
     (case fifo of
        None \<Rightarrow> (- 1, fifo, mem)
      | Some f \<Rightarrow>
          let mem1 = memset mem (buffer f) 0 (unat (max_size f));
              f1 = f\<lparr>head_ptr := buffer f\<rparr>;
              f2 = f1\<lparr>tail_ptr := buffer f1\<rparr>;
              f3 = f2\<lparr>free_size := max_size f2\<rparr>
          in (0, Some f3, mem1))"

definition fifo_uint16_pop ::
  "fifo_uint16_TD option \<Rightarrow> addr \<Rightarrow> mem \<Rightarrow> int \<times> fifo_uint16_TD option \<times> mem" where
  "fifo_uint16_pop fifo val mem =
     (case fifo of
        None \<Rightarrow> (- 1, fifo, mem)
      | Some f \<Rightarrow>
          if val = NULL then (- 2, fifo, mem)
          else if free_size f = max_size f then (- 3, fifo, mem)
          else
            let mem1 = store_u16 mem val (load_u16 mem (head_ptr f));
                f1 = f\<lparr>head_ptr := head_ptr f + 2\<rparr>;
                f2 = f1\<lparr>free_size := free_size f1 + 1\<rparr>;
                f3 = (if limit_ptr f2 \<le> head_ptr f2 then f2\<lparr>head_ptr := buffer f2\<rparr> else f2)
            in (0, Some f3, mem1))"

definition fifo_uint16_pop_mul ::
  "fifo_uint16_TD option \<Rightarrow> addr \<Rightarrow> 16 word \<Rightarrow> mem \<Rightarrow>
     (int \<times> fifo_uint16_TD option \<times> mem) option" where
  "fifo_uint16_pop_mul fifo pop_buffer m mem =
     (case fifo of
        None \<Rightarrow> Some (- 1, fifo, mem)
      | Some f \<Rightarrow>
          if pop_buffer = NULL then Some (- 2, fifo, mem)
          else if m = 0 then Some (- 3, fifo, mem)
          else if max_size f < m then Some (- 4, fifo, mem)
          else
            let f1 = f\<lparr>free_size := free_size f + m\<rparr>;
                limit = head_ptr f1 + 2 * unat m
            in
              if limit_ptr f1 \<le> limit \<and> limit_ptr f1 < head_ptr f1 then None
              else
                let (mem1, pop_buffer1, m1, f2) =
                      (if limit_ptr f1 \<le> limit then
                         (memcpy mem pop_buffer (head_ptr f1) ((limit_ptr f1 - head_ptr f1) div 2),
                          pop_buffer + 2 * (((limit_ptr f1 - head_ptr f1) div 2) div 2),
                          m - of_nat (((limit_ptr f1 - head_ptr f1) div 2) div 2),
                          f1\<lparr>head_ptr := buffer f1\<rparr>)
                       else (mem, pop_buffer, m, f1));
                    mem2 = memcpy mem1 pop_buffer1 (head_ptr f2) (unat m1 * 2);
                    f3 = f2\<lparr>head_ptr := head_ptr f2 + 2 * unat m1\<rparr>
                in Some (0, Some f3, mem2))"

definition fifo_uint16_push ::
  "fifo_uint16_TD option \<Rightarrow> 16 word \<Rightarrow> mem \<Rightarrow> int \<times> fifo_uint16_TD option \<times> mem" where
  "fifo_uint16_push fifo val mem =
     (case fifo of
        None \<Rightarrow> (- 1, fifo, mem)
      | Some f \<Rightarrow>
          if free_size f = 0 then (- 2, fifo, mem)
          else
            let mem1 = store_u16 mem (tail_ptr f) val;
                f1 = f\<lparr>tail_ptr := tail_ptr f + 2\<rparr>;
                f2 = f1\<lparr>free_size := free_size f1 - 1\<rparr>;
                f3 = (if limit_ptr f2 \<le> tail_ptr f2 then f2\<lparr>tail_ptr := buffer f2\<rparr> else f2)
            in (0, Some f3, mem1))"

definition fifo_uint16_push_mul ::
  "fifo_uint16_TD option \<Rightarrow> addr \<Rightarrow> 16 word \<Rightarrow> mem \<Rightarrow>
     (int \<times> fifo_uint16_TD option \<times> mem) option" where
  "fifo_uint16_push_mul fifo push_buffer m mem =
     (case fifo of
        None \<Rightarrow> Some (- 1, fifo, mem)
      | Some f \<Rightarrow>
          if push_buffer = NULL then Some (- 2, fifo, mem)
          else if m = 0 then Some (- 3, fifo, mem)
          else if free_size f < m then Some (- 4, fifo, mem)
          else
            let f1 = f\<lparr>free_size := free_size f - m\<rparr>;
                limit = tail_ptr f1 + 2 * unat m
            in
              if limit_ptr f1 \<le> limit \<and> limit_ptr f1 < tail_ptr f1 then None
              else
                let (mem1, push_buffer1, m1, f2) =
                      (if limit_ptr f1 \<le> limit then
                         (memcpy mem (tail_ptr f1) push_buffer ((limit_ptr f1 - tail_ptr f1) div 2),
                          push_buffer + 2 * (((limit_ptr f1 - tail_ptr f1) div 2) div 2),
                          m - of_nat (((limit_ptr f1 - tail_ptr f1) div 2) div 2),
                          f1\<lparr>tail_ptr := buffer f1\<rparr>)
                       else (mem, push_buffer, m, f1));
                    mem2 = memcpy mem1 (tail_ptr f2) push_buffer1 (unat m1 * 2);
                    f3 = f2\<lparr>tail_ptr := tail_ptr f2 + 2 * unat m1\<rparr>
                in Some (0, Some f3, mem2))"

text \<open>The path of \<^verbatim>\<open>fifo_uint16_push_mul\<close> that returns 0, statement by statement: the
  descriptor and the memory after \<^verbatim>\<open>free_size -= m\<close> and after every later statement that
  changes one of them, in the order of the source. The last entry is what the function
  leaves.\<close>

definition fifo_uint16_push_mul_steps ::
  "fifo_uint16_TD \<Rightarrow> addr \<Rightarrow> 16 word \<Rightarrow> mem \<Rightarrow> (fifo_uint16_TD \<times> mem) list" where
  "fifo_uint16_push_mul_steps f push_buffer m mem =
     (let f1 = f\<lparr>free_size := free_size f - m\<rparr>;
          limit = tail_ptr f1 + 2 * unat m
      in
        if limit_ptr f1 \<le> limit then
          let mem1 = memcpy mem (tail_ptr f1) push_buffer ((limit_ptr f1 - tail_ptr f1) div 2);
              push_buffer1 = push_buffer + 2 * (((limit_ptr f1 - tail_ptr f1) div 2) div 2);
              m1 = m - of_nat (((limit_ptr f1 - tail_ptr f1) div 2) div 2);
              f2 = f1\<lparr>tail_ptr := buffer f1\<rparr>;
              mem2 = memcpy mem1 (tail_ptr f2) push_buffer1 (unat m1 * 2);
              f3 = f2\<lparr>tail_ptr := tail_ptr f2 + 2 * unat m1\<rparr>
          in [(f1, mem), (f1, mem1), (f2, mem1), (f2, mem2), (f3, mem2)]
        else
          let mem2 = memcpy mem (tail_ptr f1) push_buffer (unat m * 2);
              f3 = f1\<lparr>tail_ptr := tail_ptr f1 + 2 * unat m\<rparr>
          in [(f1, mem), (f1, mem2), (f3, mem2)])"

definition fifo_uint16_init ::
  "fifo_uint16_TD option \<Rightarrow> addr \<Rightarrow> 16 word \<Rightarrow> bool \<Rightarrow> mem \<Rightarrow>
     int \<times> fifo_uint16_TD option \<times> mem" where
  "fifo_uint16_init fifo buf sz clear_flag mem =
     (case fifo of
        None \<Rightarrow> (- 1, fifo, mem)
      | Some f \<Rightarrow>
          if buf = NULL then (- 2, fifo, mem)
          else if sz = 0 then (- 3, fifo, mem)
          else
            let f1 = f\<lparr>buffer := buf, head_ptr := buf, tail_ptr := buf,
                       limit_ptr := buf + 2 * unat sz, max_size := sz, free_size := sz\<rparr>;
                mem1 = (if clear_flag then memset mem buf 0 (unat sz) else mem)
            in (0, Some f1, mem1))"

section \<open>uint32_t FIFO buffer\<close>

text \<open>Arithmetic on a \<^verbatim>\<open>uint32_t *\<close> counts elements of four bytes: \<^verbatim>\<open>p + m\<close> is the byte
  address \<open>p + 4 * m\<close>, \<^verbatim>\<open>p++\<close> adds 4, and \<^verbatim>\<open>limit_ptr - p\<close> is the byte distance divided
  by 4. The lengths given to \<^verbatim>\<open>memcpy\<close> and \<^verbatim>\<open>memset\<close> are byte counts, as written in the source.\<close>

definition fifo_uint32_clear ::
  "fifo_uint32_TD option \<Rightarrow> mem \<Rightarrow> int \<times> fifo_uint32_TD option \<times> mem" where
  "fifo_uint32_clear fifo mem =
     (case fifo of
        None \<Rightarrow> (- 1, fifo, mem)
      | Some f \<Rightarrow>
          let mem1 = memset mem (buffer f) 0 (unat (max_size f));
              f1 = f\<lparr>head_ptr := buffer f\<rparr>;
              f2 = f1\<lparr>tail_ptr := buffer f1\<rparr>;
              f3 = f2\<lparr>free_size := max_size f2\<rparr>
          in (0, Some f3, mem1))"

definition fifo_uint32_pop ::
  "fifo_uint32_TD option \<Rightarrow> addr \<Rightarrow> mem \<Rightarrow> int \<times> fifo_uint32_TD option \<times> mem" where
  "fifo_uint32_pop fifo val mem =
     (case fifo of
        None \<Rightarrow> (- 1, fifo, mem)
      | Some f \<Rightarrow>
          if val = NULL then (- 2, fifo, mem)
          else if free_size f = max_size f then (- 3, fifo, mem)
          else
            let mem1 = store_u32 mem val (load_u32 mem (head_ptr f));
                f1 = f\<lparr>head_ptr := head_ptr f + 4\<rparr>;
                f2 = f1\<lparr>free_size := free_size f1 + 1\<rparr>;
                f3 = (if limit_ptr f2 \<le> head_ptr f2 then f2\<lparr>head_ptr := buffer f2\<rparr> else f2)
            in (0, Some f3, mem1))"

definition fifo_uint32_pop_mul ::
  "fifo_uint32_TD option \<Rightarrow> addr \<Rightarrow> 16 word \<Rightarrow> mem \<Rightarrow>
     (int \<times> fifo_uint32_TD option \<times> mem) option" where
  "fifo_uint32_pop_mul fifo pop_buffer m mem =
     (case fifo of
        None \<Rightarrow> Some (- 1, fifo, mem)
      | Some f \<Rightarrow>
          if pop_buffer = NULL then Some (- 2, fifo, mem)
          else if m = 0 then Some (- 3, fifo, mem)
          else if max_size f < m then Some (- 4, fifo, mem)
          else
            let f1 = f\<lparr>free_size := free_size f + m\<rparr>;
                limit = head_ptr f1 + 4 * unat m
            in
              if limit_ptr f1 \<le> limit \<and> limit_ptr f1 < head_ptr f1 then None
              else
                let (mem1, pop_buffer1, m1, f2) =
                      (if limit_ptr f1 \<le> limit then
                         (memcpy mem pop_buffer (head_ptr f1) ((limit_ptr f1 - head_ptr f1) div 4),
                          pop_buffer + 4 * (((limit_ptr f1 - head_ptr f1) div 4) div 4),
                          m - of_nat (((limit_ptr f1 - head_ptr f1) div 4) div 4),
                          f1\<lparr>head_ptr := buffer f1\<rparr>)
                       else (mem, pop_buffer, m, f1));
                    mem2 = memcpy mem1 pop_buffer1 (head_ptr f2) (unat m1 * 4);
                    f3 = f2\<lparr>head_ptr := head_ptr f2 + 4 * unat m1\<rparr>
                in Some (0, Some f3, mem2))"

definition fifo_uint32_push ::
  "fifo_uint32_TD option \<Rightarrow> 32 word \<Rightarrow> mem \<Rightarrow> int \<times> fifo_uint32_TD option \<times> mem" where
  "fifo_uint32_push fifo val mem =
     (case fifo of
        None \<Rightarrow> (- 1, fifo, mem)
      | Some f \<Rightarrow>
          if free_size f = 0 then (- 2, fifo, mem)
          else
            let mem1 = store_u32 mem (tail_ptr f) val;
                f1 = f\<lparr>tail_ptr := tail_ptr f + 4\<rparr>;
                f2 = f1\<lparr>free_size := free_size f1 - 1\<rparr>;
                f3 = (if limit_ptr f2 \<le> tail_ptr f2 then f2\<lparr>tail_ptr := buffer f2\<rparr> else f2)
            in (0, Some f3, mem1))"

definition fifo_uint32_push_mul ::
  "fifo_uint32_TD option \<Rightarrow> addr \<Rightarrow> 16 word \<Rightarrow> mem \<Rightarrow>
     (int \<times> fifo_uint32_TD option \<times> mem) option" where
  "fifo_uint32_push_mul fifo push_buffer m mem =
     (case fifo of
        None \<Rightarrow> Some (- 1, fifo, mem)
      | Some f \<Rightarrow>
          if push_buffer = NULL then Some (- 2, fifo, mem)
          else if m = 0 then Some (- 3, fifo, mem)
          else if free_size f < m then Some (- 4, fifo, mem)
          else
            let f1 = f\<lparr>free_size := free_size f - m\<rparr>;
                limit = tail_ptr f1 + 4 * unat m
            in
              if limit_ptr f1 \<le> limit \<and> limit_ptr f1 < tail_ptr f1 then None
              else
                let (mem1, push_buffer1, m1, f2) =
                      (if limit_ptr f1 \<le> limit then
                         (memcpy mem (tail_ptr f1) push_buffer ((limit_ptr f1 - tail_ptr f1) div 4),
                          push_buffer + 4 * (((limit_ptr f1 - tail_ptr f1) div 4) div 4),
                          m - of_nat (((limit_ptr f1 - tail_ptr f1) div 4) div 4),
                          f1\<lparr>tail_ptr := buffer f1\<rparr>)
                       else (mem, push_buffer, m, f1));
                    mem2 = memcpy mem1 (tail_ptr f2) push_buffer1 (unat m1 * 4);
                    f3 = f2\<lparr>tail_ptr := tail_ptr f2 + 4 * unat m1\<rparr>
                in Some (0, Some f3, mem2))"

text \<open>The path of \<^verbatim>\<open>fifo_uint32_push_mul\<close> that returns 0, statement by statement: the
  descriptor and the memory after \<^verbatim>\<open>free_size -= m\<close> and after every later statement that
  changes one of them, in the order of the source. The last entry is what the function
  leaves.\<close>

definition fifo_uint32_push_mul_steps ::
  "fifo_uint32_TD \<Rightarrow> addr \<Rightarrow> 16 word \<Rightarrow> mem \<Rightarrow> (fifo_uint32_TD \<times> mem) list" where
  "fifo_uint32_push_mul_steps f push_buffer m mem =
     (let f1 = f\<lparr>free_size := free_size f - m\<rparr>;
          limit = tail_ptr f1 + 4 * unat m
      in
        if limit_ptr f1 \<le> limit then
          let mem1 = memcpy mem (tail_ptr f1) push_buffer ((limit_ptr f1 - tail_ptr f1) div 4);
              push_buffer1 = push_buffer + 4 * (((limit_ptr f1 - tail_ptr f1) div 4) div 4);
              m1 = m - of_nat (((limit_ptr f1 - tail_ptr f1) div 4) div 4);
              f2 = f1\<lparr>tail_ptr := buffer f1\<rparr>;
              mem2 = memcpy mem1 (tail_ptr f2) push_buffer1 (unat m1 * 4);
              f3 = f2\<lparr>tail_ptr := tail_ptr f2 + 4 * unat m1\<rparr>
          in [(f1, mem), (f1, mem1), (f2, mem1), (f2, mem2), (f3, mem2)]
        else
          let mem2 = memcpy mem (tail_ptr f1) push_buffer (unat m * 4);
              f3 = f1\<lparr>tail_ptr := tail_ptr f1 + 4 * unat m\<rparr>
          in [(f1, mem), (f1, mem2), (f3, mem2)])"

definition fifo_uint32_init ::
  "fifo_uint32_TD option \<Rightarrow> addr \<Rightarrow> 16 word \<Rightarrow> bool \<Rightarrow> mem \<Rightarrow>
     int \<times> fifo_uint32_TD option \<times> mem" where
  "fifo_uint32_init fifo buf sz clear_flag mem =
     (case fifo of
        None \<Rightarrow> (- 1, fifo, mem)
      | Some f \<Rightarrow>
          if buf = NULL then (- 2, fifo, mem)
          else if sz = 0 then (- 3, fifo, mem)
          else
            let f1 = f\<lparr>buffer := buf, head_ptr := buf, tail_ptr := buf,
                       limit_ptr := buf + 4 * unat sz, max_size := sz, free_size := sz\<rparr>;
                mem1 = (if clear_flag then memset mem buf 0 (unat sz) else mem)
            in (0, Some f1, mem1))"

section \<open>Common FIFO buffer\<close>

text \<open>The common buffer's pointers are \<^verbatim>\<open>void *\<close>, cast to \<^verbatim>\<open>uint8_t *\<close> for arithmetic:
  sums and differences are in bytes.\<close>

definition fifo_common_clear ::
  "fifo_common_TD option \<Rightarrow> mem \<Rightarrow> (int \<times> fifo_common_TD option \<times> mem) option" where
  "fifo_common_clear fifo mem =
     (case fifo of
        None \<Rightarrow> Some (- 1, fifo, mem)
      | Some f \<Rightarrow>
          if INT_MAX < unat (max_size f) * unat (entry_size f) then None
          else
            let mem1 = memset mem (buffer f) 0 (unat (max_size f) * unat (entry_size f));
                f1 = f\<lparr>head_ptr := buffer f\<rparr>;
                f2 = f1\<lparr>tail_ptr := buffer f1\<rparr>;
                f3 = f2\<lparr>free_size := max_size f2\<rparr>
            in Some (0, Some f3, mem1))"

definition fifo_common_pop ::
  "fifo_common_TD option \<Rightarrow> addr \<Rightarrow> mem \<Rightarrow> int \<times> fifo_common_TD option \<times> mem" where
  "fifo_common_pop fifo val_buffer mem =
     (case fifo of
        None \<Rightarrow> (- 1, fifo, mem)
      | Some f \<Rightarrow>
          if val_buffer = NULL then (- 2, fifo, mem)
          else if free_size f = max_size f then (- 3, fifo, mem)
          else
            let mem1 = (if val_buffer \<noteq> NULL
                        then memcpy mem val_buffer (head_ptr f) (unat (entry_size f)) else mem);
                f1 = f\<lparr>head_ptr := head_ptr f + unat (entry_size f)\<rparr>;
                f2 = f1\<lparr>free_size := free_size f1 + 1\<rparr>;
                f3 = (if limit_ptr f2 \<le> head_ptr f2 then f2\<lparr>head_ptr := buffer f2\<rparr> else f2)
            in (0, Some f3, mem1))"

definition fifo_common_pop_mul ::
  "fifo_common_TD option \<Rightarrow> addr \<Rightarrow> 16 word \<Rightarrow> mem \<Rightarrow>
     (int \<times> fifo_common_TD option \<times> mem) option" where
  "fifo_common_pop_mul fifo pop_buffer m mem =
     (case fifo of
        None \<Rightarrow> Some (- 1, fifo, mem)
      | Some f \<Rightarrow>
          if pop_buffer = NULL then Some (- 2, fifo, mem)
          else if m = 0 then Some (- 3, fifo, mem)
          else if max_size f < m then Some (- 4, fifo, mem)
          else
            let f1 = f\<lparr>free_size := free_size f + m\<rparr>
            in
              if INT_MAX < unat m * unat (entry_size f1) then None
              else
                let limit = head_ptr f1 + unat m * unat (entry_size f1)
                in
                  if limit_ptr f1 \<le> limit \<and> limit_ptr f1 < head_ptr f1 then None
                  else
                    let (mem1, pop_buffer1, m1, f2) =
                          (if limit_ptr f1 \<le> limit then
                             (memcpy mem pop_buffer (head_ptr f1)
                                ((limit_ptr f1 - head_ptr f1) * unat (entry_size f1)),
                              pop_buffer + (limit_ptr f1 - head_ptr f1) * unat (entry_size f1),
                              m - of_nat (limit_ptr f1 - head_ptr f1),
                              f1\<lparr>head_ptr := buffer f1\<rparr>)
                           else (mem, pop_buffer, m, f1))
                    in
                      if INT_MAX < unat m1 * unat (entry_size f2) then None
                      else
                        let mem2 = memcpy mem1 pop_buffer1 (head_ptr f2)
                                     (unat m1 * unat (entry_size f2));
                            f3 = f2\<lparr>head_ptr := head_ptr f2 + unat m1 * unat (entry_size f2)\<rparr>
                        in Some (0, Some f3, mem2))"

definition fifo_common_push ::
  "fifo_common_TD option \<Rightarrow> addr \<Rightarrow> mem \<Rightarrow> int \<times> fifo_common_TD option \<times> mem" where
  "fifo_common_push fifo val_buffer mem =
     (case fifo of
        None \<Rightarrow> (- 1, fifo, mem)
      | Some f \<Rightarrow>
          if val_buffer = NULL then (- 2, fifo, mem)
          else if free_size f = 0 then (- 3, fifo, mem)
          else
            let mem1 = memcpy mem (tail_ptr f) val_buffer (unat (entry_size f));
                f1 = f\<lparr>tail_ptr := tail_ptr f + unat (entry_size f)\<rparr>;
                f2 = f1\<lparr>free_size := free_size f1 - 1\<rparr>;
                f3 = (if limit_ptr f2 \<le> tail_ptr f2 then f2\<lparr>tail_ptr := buffer f2\<rparr> else f2)
            in (0, Some f3, mem1))"

definition fifo_common_push_mul ::
  "fifo_common_TD option \<Rightarrow> addr \<Rightarrow> 16 word \<Rightarrow> mem \<Rightarrow>
     (int \<times> fifo_common_TD option \<times> mem) option" where
  "fifo_common_push_mul fifo push_buffer m mem =
     (case fifo of
        None \<Rightarrow> Some (- 1, fifo, mem)
      | Some f \<Rightarrow>
          if push_buffer = NULL then Some (- 2, fifo, mem)
          else if m = 0 then Some (- 3, fifo, mem)
          else if free_size f < m then Some (- 4, fifo, mem)
          else
            let f1 = f\<lparr>free_size := free_size f - m\<rparr>
            in
              if INT_MAX < unat m * unat (entry_size f1) then None
              else
                let limit = tail_ptr f1 + unat m * unat (entry_size f1)
                in
                  if limit_ptr f1 \<le> limit \<and> (limit_ptr f1 < tail_ptr f1 \<or> entry_size f1 = 0)
                  then None
                  else
                    let (mem1, push_buffer1, m1, f2) =
                          (if limit_ptr f1 \<le> limit then
                             (memcpy mem (tail_ptr f1) push_buffer
                                ((limit_ptr f1 - tail_ptr f1) * unat (entry_size f1)),
                              push_buffer + (limit_ptr f1 - tail_ptr f1) * unat (entry_size f1),
                              m - of_nat ((limit_ptr f1 - tail_ptr f1) div unat (entry_size f1)),
                              f1\<lparr>tail_ptr := buffer f1\<rparr>)
                           else (mem, push_buffer, m, f1))
                    in
                      if INT_MAX < unat m1 * unat (entry_size f2) then None
                      else
                        let mem2 = memcpy mem1 (tail_ptr f2) push_buffer1
                                     (unat m1 * unat (entry_size f2));
                            f3 = f2\<lparr>tail_ptr := tail_ptr f2 + unat m1 * unat (entry_size f2)\<rparr>
                        in Some (0, Some f3, mem2))"

text \<open>The path of \<^verbatim>\<open>fifo_common_push_mul\<close> that returns 0, statement by statement: the
  descriptor and the memory after \<^verbatim>\<open>free_size -= m\<close> and after every later statement that
  changes one of them, in the order of the source. The last entry is what the function
  leaves.\<close>

definition fifo_common_push_mul_steps ::
  "fifo_common_TD \<Rightarrow> addr \<Rightarrow> 16 word \<Rightarrow> mem \<Rightarrow> (fifo_common_TD \<times> mem) list" where
  "fifo_common_push_mul_steps f push_buffer m mem =
     (let f1 = f\<lparr>free_size := free_size f - m\<rparr>;
          limit = tail_ptr f1 + unat m * unat (entry_size f1)
      in
        if limit_ptr f1 \<le> limit then
          let mem1 = memcpy mem (tail_ptr f1) push_buffer
                       ((limit_ptr f1 - tail_ptr f1) * unat (entry_size f1));
              push_buffer1 = push_buffer + (limit_ptr f1 - tail_ptr f1) * unat (entry_size f1);
              m1 = m - of_nat ((limit_ptr f1 - tail_ptr f1) div unat (entry_size f1));
              f2 = f1\<lparr>tail_ptr := buffer f1\<rparr>;
              mem2 = memcpy mem1 (tail_ptr f2) push_buffer1 (unat m1 * unat (entry_size f2));
              f3 = f2\<lparr>tail_ptr := tail_ptr f2 + unat m1 * unat (entry_size f2)\<rparr>
          in [(f1, mem), (f1, mem1), (f2, mem1), (f2, mem2), (f3, mem2)]
        else
          let mem2 = memcpy mem (tail_ptr f1) push_buffer (unat m * unat (entry_size f1));
              f3 = f1\<lparr>tail_ptr := tail_ptr f1 + unat m * unat (entry_size f1)\<rparr>
          in [(f1, mem), (f1, mem2), (f3, mem2)])"

definition fifo_common_init ::
  "fifo_common_TD option \<Rightarrow> addr \<Rightarrow> 16 word \<Rightarrow> 16 word \<Rightarrow> bool \<Rightarrow> mem \<Rightarrow>
     (int \<times> fifo_common_TD option \<times> mem) option" where
  "fifo_common_init fifo buf sz esz clear_flag mem =
     (case fifo of
        None \<Rightarrow> Some (- 1, fifo, mem)
      | Some f \<Rightarrow>
          if buf = NULL then Some (- 2, fifo, mem)
          else if sz = 0 then Some (- 3, fifo, mem)
          else if esz = 0 then Some (- 4, fifo, mem)
          else if INT_MAX < unat esz * unat sz then None
          else
            let f1 = f\<lparr>buffer := buf, head_ptr := buf, tail_ptr := buf,
                       limit_ptr := buf + unat esz * unat sz, entry_size := esz,
                       max_size := sz, free_size := sz\<rparr>;
                mem1 = (if clear_flag then memset mem buf 0 (unat sz * unat esz) else mem)
            in Some (0, Some f1, mem1))"

section \<open>Driver loops\<close>

text \<open>Callers that push a list of values, or pop a number of values, one call at a time.
  The \<open>push_all\<close> loops of the typed buffers collect the statuses; their \<open>pop_n\<close> loops
  pop into the same variable \<open>val\<close> every time and collect each status with the value
  found there. The loops of the common buffer push \<open>n\<close> entries that lie one after the
  other from \<open>src\<close> on, and pop \<open>k\<close> entries one after the other from \<open>dst\<close> on; \<open>step\<close> is
  the distance between two entries.\<close>

fun fifo_uint8_push_all ::
  "fifo_uint8_TD option \<Rightarrow> 8 word list \<Rightarrow> mem \<Rightarrow> int list \<times> fifo_uint8_TD option \<times> mem" where
  "fifo_uint8_push_all fifo [] mem = ([], fifo, mem)"
| "fifo_uint8_push_all fifo (v # vs) mem =
     (case fifo_uint8_push fifo v mem of
        (s, fifo1, mem1) \<Rightarrow>
          (case fifo_uint8_push_all fifo1 vs mem1 of
             (ss, fifo2, mem2) \<Rightarrow> (s # ss, fifo2, mem2)))"

fun fifo_uint8_pop_n ::
  "fifo_uint8_TD option \<Rightarrow> addr \<Rightarrow> nat \<Rightarrow> mem \<Rightarrow>
     (int \<times> 8 word) list \<times> fifo_uint8_TD option \<times> mem" where
  "fifo_uint8_pop_n fifo val 0 mem = ([], fifo, mem)"
| "fifo_uint8_pop_n fifo val (Suc k) mem =
     (case fifo_uint8_pop fifo val mem of
        (s, fifo1, mem1) \<Rightarrow>
          (case fifo_uint8_pop_n fifo1 val k mem1 of
             (rs, fifo2, mem2) \<Rightarrow> ((s, mem1 val) # rs, fifo2, mem2)))"

fun fifo_uint16_push_all ::
  "fifo_uint16_TD option \<Rightarrow> 16 word list \<Rightarrow> mem \<Rightarrow> int list \<times> fifo_uint16_TD option \<times> mem" where
  "fifo_uint16_push_all fifo [] mem = ([], fifo, mem)"
| "fifo_uint16_push_all fifo (v # vs) mem =
     (case fifo_uint16_push fifo v mem of
        (s, fifo1, mem1) \<Rightarrow>
          (case fifo_uint16_push_all fifo1 vs mem1 of
             (ss, fifo2, mem2) \<Rightarrow> (s # ss, fifo2, mem2)))"

fun fifo_uint16_pop_n ::
  "fifo_uint16_TD option \<Rightarrow> addr \<Rightarrow> nat \<Rightarrow> mem \<Rightarrow>
     (int \<times> 16 word) list \<times> fifo_uint16_TD option \<times> mem" where
  "fifo_uint16_pop_n fifo val 0 mem = ([], fifo, mem)"
| "fifo_uint16_pop_n fifo val (Suc k) mem =
     (case fifo_uint16_pop fifo val mem of
        (s, fifo1, mem1) \<Rightarrow>
          (case fifo_uint16_pop_n fifo1 val k mem1 of
             (rs, fifo2, mem2) \<Rightarrow> ((s, load_u16 mem1 val) # rs, fifo2, mem2)))"

fun fifo_uint32_push_all ::
  "fifo_uint32_TD option \<Rightarrow> 32 word list \<Rightarrow> mem \<Rightarrow> int list \<times> fifo_uint32_TD option \<times> mem" where
  "fifo_uint32_push_all fifo [] mem = ([], fifo, mem)"
| "fifo_uint32_push_all fifo (v # vs) mem =
     (case fifo_uint32_push fifo v mem of
        (s, fifo1, mem1) \<Rightarrow>
          (case fifo_uint32_push_all fifo1 vs mem1 of
             (ss, fifo2, mem2) \<Rightarrow> (s # ss, fifo2, mem2)))"

fun fifo_uint32_pop_n ::
  "fifo_uint32_TD option \<Rightarrow> addr \<Rightarrow> nat \<Rightarrow> mem \<Rightarrow>
     (int \<times> 32 word) list \<times> fifo_uint32_TD option \<times> mem" where
  "fifo_uint32_pop_n fifo val 0 mem = ([], fifo, mem)"
| "fifo_uint32_pop_n fifo val (Suc k) mem =
     (case fifo_uint32_pop fifo val mem of
        (s, fifo1, mem1) \<Rightarrow>
          (case fifo_uint32_pop_n fifo1 val k mem1 of
             (rs, fifo2, mem2) \<Rightarrow> ((s, load_u32 mem1 val) # rs, fifo2, mem2)))"

fun fifo_common_push_all ::
  "fifo_common_TD option \<Rightarrow> addr \<Rightarrow> nat \<Rightarrow> nat \<Rightarrow> mem \<Rightarrow>
     int list \<times> fifo_common_TD option \<times> mem" where
  "fifo_common_push_all fifo src step 0 mem = ([], fifo, mem)"
| "fifo_common_push_all fifo src step (Suc n) mem =
     (case fifo_common_push fifo src mem of
        (s, fifo1, mem1) \<Rightarrow>
          (case fifo_common_push_all fifo1 (src + step) step n mem1 of
             (ss, fifo2, mem2) \<Rightarrow> (s # ss, fifo2, mem2)))"

fun fifo_common_pop_n ::
  "fifo_common_TD option \<Rightarrow> addr \<Rightarrow> nat \<Rightarrow> nat \<Rightarrow> mem \<Rightarrow>
     int list \<times> fifo_common_TD option \<times> mem" where
  "fifo_common_pop_n fifo dst step 0 mem = ([], fifo, mem)"
| "fifo_common_pop_n fifo dst step (Suc k) mem =
     (case fifo_common_pop fifo dst mem of
        (s, fifo1, mem1) \<Rightarrow>
          (case fifo_common_pop_n fifo1 (dst + step) step k mem1 of
             (rs, fifo2, mem2) \<Rightarrow> (s # rs, fifo2, mem2)))"

text \<open>A caller of the byte buffer's interface: one call of any of the five operations
  and a sequence of such calls, whatever their arguments and statuses. The result is
  \<open>None\<close> when a call is undefined.\<close>

datatype uint8_call =
  Clear | Pop addr | Pop_mul addr "16 word" | Push "8 word" | Push_mul addr "16 word"

fun fifo_uint8_call ::
  "uint8_call \<Rightarrow> fifo_uint8_TD option \<Rightarrow> mem \<Rightarrow>
     (int \<times> fifo_uint8_TD option \<times> mem) option" where
  "fifo_uint8_call Clear fifo mem = Some (fifo_uint8_clear fifo mem)"
| "fifo_uint8_call (Pop val) fifo mem = Some (fifo_uint8_pop fifo val mem)"
| "fifo_uint8_call (Pop_mul pop_buffer m) fifo mem = fifo_uint8_pop_mul fifo pop_buffer m mem"
| "fifo_uint8_call (Push val) fifo mem = Some (fifo_uint8_push fifo val mem)"
| "fifo_uint8_call (Push_mul push_buffer m) fifo mem = fifo_uint8_push_mul fifo push_buffer m mem"

fun fifo_uint8_calls ::
  "uint8_call list \<Rightarrow> fifo_uint8_TD option \<Rightarrow> mem \<Rightarrow> (fifo_uint8_TD option \<times> mem) option" where
  "fifo_uint8_calls [] fifo mem = Some (fifo, mem)"
| "fifo_uint8_calls (c # cs) fifo mem =
     (case fifo_uint8_call c fifo mem of
        None \<Rightarrow> None
      | Some (s, fifo1, mem1) \<Rightarrow> fifo_uint8_calls cs fifo1 mem1)"

text \<open>The invariant of an initialised byte buffer: the storage is not empty, the limit is
  its end, head and tail lie in it, and \<^verbatim>\<open>free_size\<close> does not exceed \<^verbatim>\<open>max_size\<close>.\<close>

definition uint8_invariant :: "fifo_uint8_TD option \<Rightarrow> bool" where
  "uint8_invariant fifo =
     (case fifo of
        None \<Rightarrow> True
      | Some f \<Rightarrow>
          max_size f \<noteq> 0 \<and> limit_ptr f = buffer f + unat (max_size f) \<and>
          buffer f \<le> head_ptr f \<and> head_ptr f < limit_ptr f \<and>
          buffer f \<le> tail_ptr f \<and> tail_ptr f < limit_ptr f \<and>
          free_size f \<le> max_size f)"

section \<open>Example states\<close>

text \<open>Concrete descriptors and memories used to instantiate the theorems below: a
  descriptor whose fields are still all zero (before \<^verbatim>\<open>init\<close>), then for each variant a
  half-full, a full and an empty buffer of capacity 4 with the storage at address 100
  (entries of 3 bytes in the common buffer), and three memories, the last with the bytes
  1 to 9 at address 300.\<close>

abbreviation blank_fifo :: fifo_TD where
  "blank_fifo \<equiv> \<lparr>buffer = 0, head_ptr = 0, tail_ptr = 0, limit_ptr = 0,
                 max_size = 0, free_size = 0\<rparr>"

abbreviation ex_fifo8 :: fifo_uint8_TD where
  "ex_fifo8 \<equiv> \<lparr>buffer = 100, head_ptr = 101, tail_ptr = 103, limit_ptr = 104,
               max_size = 4, free_size = 2\<rparr>"

abbreviation ex_fifo16 :: fifo_uint16_TD where
  "ex_fifo16 \<equiv> \<lparr>buffer = 100, head_ptr = 102, tail_ptr = 106, limit_ptr = 108,
                max_size = 4, free_size = 2\<rparr>"

abbreviation ex_fifo32 :: fifo_uint32_TD where
  "ex_fifo32 \<equiv> \<lparr>buffer = 100, head_ptr = 104, tail_ptr = 112, limit_ptr = 116,
                max_size = 4, free_size = 2\<rparr>"

abbreviation ex_fifo_common :: fifo_common_TD where
  "ex_fifo_common \<equiv> \<lparr>buffer = 100, head_ptr = 103, tail_ptr = 109, limit_ptr = 112,
                     max_size = 4, free_size = 2, entry_size = 3\<rparr>"

abbreviation full_fifo8 :: fifo_uint8_TD where
  "full_fifo8 \<equiv> \<lparr>buffer = 100, head_ptr = 102, tail_ptr = 102, limit_ptr = 104,
                 max_size = 4, free_size = 0\<rparr>"

abbreviation full_fifo16 :: fifo_uint16_TD where
  "full_fifo16 \<equiv> \<lparr>buffer = 100, head_ptr = 104, tail_ptr = 104, limit_ptr = 108,
                  max_size = 4, free_size = 0\<rparr>"

abbreviation full_fifo32 :: fifo_uint32_TD where
  "full_fifo32 \<equiv> \<lparr>buffer = 100, head_ptr = 108, tail_ptr = 108, limit_ptr = 116,
                  max_size = 4, free_size = 0\<rparr>"

abbreviation full_fifo_common :: fifo_common_TD where
  "full_fifo_common \<equiv> \<lparr>buffer = 100, head_ptr = 106, tail_ptr = 106, limit_ptr = 112,
                       max_size = 4, free_size = 0, entry_size = 3\<rparr>"

abbreviation empty_fifo8 :: fifo_uint8_TD where
  "empty_fifo8 \<equiv> \<lparr>buffer = 100, head_ptr = 102, tail_ptr = 102, limit_ptr = 104,
                  max_size = 4, free_size = 4\<rparr>"

abbreviation empty_fifo16 :: fifo_uint16_TD where
  "empty_fifo16 \<equiv> \<lparr>buffer = 100, head_ptr = 104, tail_ptr = 104, limit_ptr = 108,
                   max_size = 4, free_size = 4\<rparr>"

abbreviation empty_fifo32 :: fifo_uint32_TD where
  "empty_fifo32 \<equiv> \<lparr>buffer = 100, head_ptr = 108, tail_ptr = 108, limit_ptr = 116,
                   max_size = 4, free_size = 4\<rparr>"

abbreviation empty_fifo_common :: fifo_common_TD where
  "empty_fifo_common \<equiv> \<lparr>buffer = 100, head_ptr = 106, tail_ptr = 106, limit_ptr = 112,
                        max_size = 4, free_size = 4, entry_size = 3\<rparr>"

abbreviation blank_fifo_common :: fifo_common_TD where
  "blank_fifo_common \<equiv> \<lparr>buffer = 0, head_ptr = 0, tail_ptr = 0, limit_ptr = 0,
                        max_size = 0, free_size = 0, entry_size = 0\<rparr>"

abbreviation zero_mem :: mem where
  "zero_mem \<equiv> (\<lambda>a. 0)"

abbreviation ones_mem :: mem where
  "ones_mem \<equiv> (\<lambda>a. 255)"

abbreviation src_mem :: mem where
  "src_mem \<equiv> write_bytes (\<lambda>a. 0) 300 [1, 2, 3, 4, 5, 6, 7, 8, 9]"

section \<open>Memory lemmas\<close>

lemma read_bytes_map: "read_bytes mem a n = map (\<lambda>i. mem (a + i)) [0..<n]"
proof (induction n arbitrary: a)
  case 0
  then show ?case by simp
next
  case (Suc n)
  have "[0..<Suc n] = 0 # map Suc [0..<n]"
    by (simp add: upt_conv_Cons map_Suc_upt del: upt_Suc)
  then show ?case using Suc by (simp add: comp_def del: upt_Suc)
qed

lemma length_read_bytes [simp]: "length (read_bytes mem a n) = n"
  by (simp add: read_bytes_map)

lemma nth_read_bytes [simp]: "i < n \<Longrightarrow> read_bytes mem a n ! i = mem (a + i)"
  by (simp add: read_bytes_map)

lemma read_bytes_numeral:
  "read_bytes mem a (numeral k) = mem a # read_bytes mem (Suc a) (pred_numeral k)"
  by (simp add: numeral_eq_Suc)

lemma write_bytes_apply:
  "write_bytes mem a bs x = (if a \<le> x \<and> x < a + length bs then bs ! (x - a) else mem x)"
proof (induction bs arbitrary: mem a)
  case Nil
  then show ?case by auto
next
  case (Cons b bs)
  have "write_bytes (mem(a := b)) (Suc a) bs x =
      (if Suc a \<le> x \<and> x < Suc a + length bs then bs ! (x - Suc a) else (mem(a := b)) x)"
    by (rule Cons.IH)
  then show ?case
    by (auto simp: nth_Cons' Suc_diff_le)
qed

lemma memcpy_apply:
  "memcpy mem dst src n x = (if dst \<le> x \<and> x < dst + n then mem (src + (x - dst)) else mem x)"
  by (auto simp: memcpy_def write_bytes_apply)

lemma memset_apply:
  "memset mem dst c n x = (if dst \<le> x \<and> x < dst + n then c else mem x)"
  by (auto simp: memset_def write_bytes_apply)

lemma read_bytes_fun_upd:
  "x < a \<or> a + n \<le> x \<Longrightarrow> read_bytes (mem(x := b)) a n = read_bytes mem a n"
  by (induction n arbitrary: a) auto

lemma read_write_bytes_take:
  "k \<le> length bs \<Longrightarrow> read_bytes (write_bytes mem a bs) a k = take k bs"
  by (rule nth_equalityI) (simp_all add: write_bytes_apply)

lemma read_bytes_append:
  "read_bytes mem a (n + k) = read_bytes mem a n @ read_bytes mem (a + n) k"
  by (induction n arbitrary: a) auto

lemma read_bytes_write_bytes_disjoint:
  "a + n \<le> b \<or> b + length bs \<le> a \<Longrightarrow>
   read_bytes (write_bytes mem b bs) a n = read_bytes mem a n"
  by (rule nth_equalityI) (auto simp: write_bytes_apply)

lemma read_bytes_memset:
  "read_bytes (memset mem a c n) a n = replicate n c"
  by (rule nth_equalityI) (simp_all add: memset_apply)

lemma write_bytes_append:
  "write_bytes mem a (xs @ ys) = write_bytes (write_bytes mem a xs) (a + length xs) ys"
  by (induction xs arbitrary: mem a) auto

lemma take_read_bytes: "k \<le> n \<Longrightarrow> take k (read_bytes mem a n) = read_bytes mem a k"
  by (rule nth_equalityI) simp_all

section \<open>Typed loads and stores\<close>

lemma store_u16_apply:
  "store_u16 mem a v x =
     (if x = a then ucast v else if x = Suc a then ucast (drop_bit 8 v) else mem x)"
  by (simp add: store_u16_def)

lemma load_store_u16: "load_u16 (store_u16 mem a v) a = v"
  apply (simp add: load_u16_def store_u16_apply)
  apply (rule bit_word_eqI)
  apply (auto simp: bit_simps)
  done

lemma load_u16_store_u16_other:
  "a' + 2 \<le> a \<or> a + 2 \<le> a' \<Longrightarrow> load_u16 (store_u16 mem a v) a' = load_u16 mem a'"
  by (auto simp: load_u16_def store_u16_apply)

lemma load_u16_cong:
  "mem a = mem' a \<Longrightarrow> mem (Suc a) = mem' (Suc a) \<Longrightarrow> load_u16 mem a = load_u16 mem' a"
  by (simp add: load_u16_def)

lemma store_u16s_below: "x < a \<Longrightarrow> store_u16s mem a vs x = mem x"
  by (induction vs arbitrary: mem a) (auto simp: store_u16_apply)

lemma load_store_u16s: "k \<le> length vs \<Longrightarrow> load_u16s (store_u16s mem a vs) a k = take k vs"
proof (induction vs arbitrary: mem a k)
  case Nil
  then show ?case by simp
next
  case (Cons v vs)
  show ?case
  proof (cases k)
    case 0
    then show ?thesis by simp
  next
    case (Suc j)
    have "load_u16 (store_u16s (store_u16 mem a v) (a + 2) vs) a = load_u16 (store_u16 mem a v) a"
      by (rule load_u16_cong) (simp_all add: store_u16s_below)
    then have hd: "load_u16 (store_u16s (store_u16 mem a v) (a + 2) vs) a = v"
      by (simp add: load_store_u16)
    have "j \<le> length vs" using Cons.prems Suc by simp
    then have "load_u16s (store_u16s (store_u16 mem a v) (a + 2) vs) (a + 2) j = take j vs"
      by (rule Cons.IH)
    with hd Suc show ?thesis by simp
  qed
qed

lemma load_u16s_store_u16_other:
  "x + 2 \<le> a \<or> a + 2 * n \<le> x \<Longrightarrow> load_u16s (store_u16 mem x v) a n = load_u16s mem a n"
  by (induction n arbitrary: a) (auto simp: load_u16_store_u16_other)

lemma store_u32_apply:
  "store_u32 mem a v x =
     (if x = a then ucast v else if x = a + 1 then ucast (drop_bit 8 v)
      else if x = a + 2 then ucast (drop_bit 16 v)
      else if x = a + 3 then ucast (drop_bit 24 v) else mem x)"
  by (auto simp: store_u32_def)

lemma load_store_u32: "load_u32 (store_u32 mem a v) a = v"
  apply (simp add: load_u32_def store_u32_apply)
  apply (rule bit_word_eqI)
  apply (auto simp: bit_simps)
  apply (rule ccontr)
  apply simp
  done

lemma load_u32_store_u32_other:
  "a' + 4 \<le> a \<or> a + 4 \<le> a' \<Longrightarrow> load_u32 (store_u32 mem a v) a' = load_u32 mem a'"
  by (auto simp: load_u32_def store_u32_apply)

lemma load_u32_cong:
  "mem a = mem' a \<Longrightarrow> mem (a + 1) = mem' (a + 1) \<Longrightarrow> mem (a + 2) = mem' (a + 2) \<Longrightarrow>
   mem (a + 3) = mem' (a + 3) \<Longrightarrow> load_u32 mem a = load_u32 mem' a"
  by (simp add: load_u32_def)

lemma store_u32s_below: "x < a \<Longrightarrow> store_u32s mem a vs x = mem x"
  by (induction vs arbitrary: mem a) (auto simp: store_u32_apply)

lemma load_store_u32s: "k \<le> length vs \<Longrightarrow> load_u32s (store_u32s mem a vs) a k = take k vs"
proof (induction vs arbitrary: mem a k)
  case Nil
  then show ?case by simp
next
  case (Cons v vs)
  show ?case
  proof (cases k)
    case 0
    then show ?thesis by simp
  next
    case (Suc j)
    have "load_u32 (store_u32s (store_u32 mem a v) (a + 4) vs) a = load_u32 (store_u32 mem a v) a"
      by (rule load_u32_cong) (simp_all add: store_u32s_below)
    then have hd: "load_u32 (store_u32s (store_u32 mem a v) (a + 4) vs) a = v"
      by (simp add: load_store_u32)
    have "j \<le> length vs" using Cons.prems Suc by simp
    then have "load_u32s (store_u32s (store_u32 mem a v) (a + 4) vs) (a + 4) j = take j vs"
      by (rule Cons.IH)
    with hd Suc show ?thesis by simp
  qed
qed

lemma load_u32s_store_u32_other:
  "x + 4 \<le> a \<or> a + 4 * n \<le> x \<Longrightarrow> load_u32s (store_u32 mem x v) a n = load_u32s mem a n"
  by (induction n arbitrary: a) (auto simp: load_u32_store_u32_other)

section \<open>Counter arithmetic\<close>

lemma unat16_bound:
  fixes w :: "16 word"
  shows "unat w < 65536"
proof -
  have "unat w < 2 ^ LENGTH(16)" by (rule unsigned_less)
  then show ?thesis by simp
qed

lemma unat_minus_one_16:
  fixes w :: "16 word"
  shows "w \<noteq> 0 \<Longrightarrow> unat (w - 1) = unat w - 1"
  by (simp add: unat_minus_one)

lemma word_sub_no_wrap:
  fixes a m :: "16 word"
  shows "\<not> a < m \<Longrightarrow> unat (a - m) + unat m = unat a"
  by (simp add: unat_sub word_le_nat_alt not_less)

lemma stored_count_less_iff:
  fixes a b m :: "16 word"
  assumes "unat b \<le> unat a"
  shows "(uint a - uint b < uint m) = (unat a - unat b < unat m)"
proof -
  have u: "uint x = int (unat x)" for x :: "16 word" by simp
  show ?thesis
    unfolding u using assms by linarith
qed

section \<open>Status of the bulk operations\<close>

lemma unat_sub_of_nat:
  fixes m :: "16 word"
  assumes "k \<le> unat m"
  shows "unat (m - of_nat k) = unat m - k"
proof -
  have "k < 2 ^ 16" using assms unat16_bound [of m] by simp
  then have un: "unat (of_nat k :: 16 word) = k" by (simp add: unat_of_nat)
  then have "(of_nat k :: 16 word) \<le> m" using assms by (simp add: word_le_nat_alt)
  then show ?thesis using un by (simp add: unat_sub)
qed

lemma quotient_le_count:
  assumes "d \<le> n * e" and "0 < e"
  shows "d div e \<le> (n::nat)"
proof -
  have "d div e \<le> (n * e) div e" using assms(1) by (rule div_le_mono)
  then show ?thesis using assms(2) by simp
qed

lemma uint8_push_mul_status:
  "map_option fst (fifo_uint8_push_mul fifo src m mem) =
     (case fifo of None \<Rightarrow> Some (- 1)
      | Some f \<Rightarrow> if src = NULL then Some (- 2) else if m = 0 then Some (- 3)
                  else if free_size f < m then Some (- 4)
                  else if limit_ptr f < tail_ptr f then None else Some 0)"
  by (cases fifo) (auto simp: fifo_uint8_push_mul_def Let_def case_prod_beta)

lemma uint16_push_mul_status:
  "map_option fst (fifo_uint16_push_mul fifo src m mem) =
     (case fifo of None \<Rightarrow> Some (- 1)
      | Some f \<Rightarrow> if src = NULL then Some (- 2) else if m = 0 then Some (- 3)
                  else if free_size f < m then Some (- 4)
                  else if limit_ptr f < tail_ptr f then None else Some 0)"
  by (cases fifo) (auto simp: fifo_uint16_push_mul_def Let_def case_prod_beta)

lemma uint32_push_mul_status:
  "map_option fst (fifo_uint32_push_mul fifo src m mem) =
     (case fifo of None \<Rightarrow> Some (- 1)
      | Some f \<Rightarrow> if src = NULL then Some (- 2) else if m = 0 then Some (- 3)
                  else if free_size f < m then Some (- 4)
                  else if limit_ptr f < tail_ptr f then None else Some 0)"
  by (cases fifo) (auto simp: fifo_uint32_push_mul_def Let_def case_prod_beta)

lemma common_push_mul_rest:
  fixes m :: "16 word"
  assumes "limit_ptr f \<le> tail_ptr f + unat m * unat (entry_size f)"
    and "tail_ptr f \<le> limit_ptr f" and "entry_size f \<noteq> 0"
  shows "unat (m - of_nat ((limit_ptr f - tail_ptr f) div unat (entry_size f))) *
           unat (entry_size f) \<le> unat m * unat (entry_size f)"
proof -
  have e: "0 < unat (entry_size f)" using assms(3) by (simp add: unat_gt_0)
  have "limit_ptr f - tail_ptr f \<le> unat m * unat (entry_size f)"
    using assms(1,2) by linarith
  then have k: "(limit_ptr f - tail_ptr f) div unat (entry_size f) \<le> unat m"
    using e by (rule quotient_le_count)
  have "unat (m - of_nat ((limit_ptr f - tail_ptr f) div unat (entry_size f))) =
      unat m - (limit_ptr f - tail_ptr f) div unat (entry_size f)"
    using k by (rule unat_sub_of_nat)
  then have "unat (m - of_nat ((limit_ptr f - tail_ptr f) div unat (entry_size f))) \<le> unat m"
    by linarith
  then show ?thesis by (rule mult_le_mono1)
qed

lemma common_push_mul_status:
  "map_option fst (fifo_common_push_mul cfifo src m mem) =
     (case cfifo of None \<Rightarrow> Some (- 1)
      | Some f \<Rightarrow> if src = NULL then Some (- 2) else if m = 0 then Some (- 3)
                  else if free_size f < m then Some (- 4)
                  else if INT_MAX < unat m * unat (entry_size f) \<or> limit_ptr f < tail_ptr f \<or>
                          (entry_size f = 0 \<and> limit_ptr f \<le> tail_ptr f) then None
                  else Some 0)"
proof (cases cfifo)
  case None
  then show ?thesis by (simp add: fifo_common_push_mul_def)
next
  case (Some f)
  show ?thesis
  proof (cases "\<not> INT_MAX < unat m * unat (entry_size f) \<and>
      limit_ptr f \<le> tail_ptr f + unat m * unat (entry_size f) \<and>
      tail_ptr f \<le> limit_ptr f \<and> entry_size f \<noteq> 0")
    case True
    then have "unat (m - of_nat ((limit_ptr f - tail_ptr f) div unat (entry_size f))) *
           unat (entry_size f) \<le> unat m * unat (entry_size f)"
      by (intro common_push_mul_rest) simp_all
    with True have rest:
      "\<not> INT_MAX < unat (m - of_nat ((limit_ptr f - tail_ptr f) div unat (entry_size f))) *
           unat (entry_size f)"
      by linarith
    from True have a: "\<not> INT_MAX < unat m * unat (entry_size f)"
      and b: "limit_ptr f \<le> tail_ptr f + unat m * unat (entry_size f)"
      and c: "\<not> limit_ptr f < tail_ptr f" and d: "entry_size f \<noteq> 0"
      by simp_all
    show ?thesis
      unfolding Some fifo_common_push_mul_def
      by (simp add: Let_def a b c d rest)
  next
    case False
    with Some show ?thesis
      by (auto simp: fifo_common_push_mul_def Let_def case_prod_beta)
  qed
qed

lemma uint8_push_mul_free:
  "map_option fst (fifo_uint8_push_mul (Some f) src m mem) = Some 0 \<Longrightarrow>
   map_option (\<lambda>r. map_option free_size (fst (snd r)))
     (fifo_uint8_push_mul (Some f) src m mem) = Some (Some (free_size f - m))"
  by (auto simp: fifo_uint8_push_mul_def Let_def case_prod_beta split: if_splits)

lemma uint8_push_mul_steps:
  "map_option fst (fifo_uint8_push_mul (Some f) src m mem) = Some 0 \<Longrightarrow>
   fifo_uint8_push_mul (Some f) src m mem =
     Some (0, Some (fst (last (fifo_uint8_push_mul_steps f src m mem))),
           snd (last (fifo_uint8_push_mul_steps f src m mem)))"
  by (auto simp: fifo_uint8_push_mul_def fifo_uint8_push_mul_steps_def Let_def case_prod_beta
      split: if_splits)

lemma uint8_push_mul_steps_first:
  "hd (fifo_uint8_push_mul_steps f src m mem) = (f\<lparr>free_size := free_size f - m\<rparr>, mem)"
  by (simp add: fifo_uint8_push_mul_steps_def Let_def)

lemma uint8_push_mul_steps_free:
  "list_all (\<lambda>s. free_size (fst s) = free_size f - m) (fifo_uint8_push_mul_steps f src m mem)"
  by (simp add: fifo_uint8_push_mul_steps_def Let_def)

lemma uint16_push_mul_free:
  "map_option fst (fifo_uint16_push_mul (Some f) src m mem) = Some 0 \<Longrightarrow>
   map_option (\<lambda>r. map_option free_size (fst (snd r)))
     (fifo_uint16_push_mul (Some f) src m mem) = Some (Some (free_size f - m))"
  by (auto simp: fifo_uint16_push_mul_def Let_def case_prod_beta split: if_splits)

lemma uint16_push_mul_steps:
  "map_option fst (fifo_uint16_push_mul (Some f) src m mem) = Some 0 \<Longrightarrow>
   fifo_uint16_push_mul (Some f) src m mem =
     Some (0, Some (fst (last (fifo_uint16_push_mul_steps f src m mem))),
           snd (last (fifo_uint16_push_mul_steps f src m mem)))"
  by (auto simp: fifo_uint16_push_mul_def fifo_uint16_push_mul_steps_def Let_def case_prod_beta
      split: if_splits)

lemma uint16_push_mul_steps_first:
  "hd (fifo_uint16_push_mul_steps f src m mem) = (f\<lparr>free_size := free_size f - m\<rparr>, mem)"
  by (simp add: fifo_uint16_push_mul_steps_def Let_def)

lemma uint16_push_mul_steps_free:
  "list_all (\<lambda>s. free_size (fst s) = free_size f - m) (fifo_uint16_push_mul_steps f src m mem)"
  by (simp add: fifo_uint16_push_mul_steps_def Let_def)

lemma uint32_push_mul_free:
  "map_option fst (fifo_uint32_push_mul (Some f) src m mem) = Some 0 \<Longrightarrow>
   map_option (\<lambda>r. map_option free_size (fst (snd r)))
     (fifo_uint32_push_mul (Some f) src m mem) = Some (Some (free_size f - m))"
  by (auto simp: fifo_uint32_push_mul_def Let_def case_prod_beta split: if_splits)

lemma uint32_push_mul_steps:
  "map_option fst (fifo_uint32_push_mul (Some f) src m mem) = Some 0 \<Longrightarrow>
   fifo_uint32_push_mul (Some f) src m mem =
     Some (0, Some (fst (last (fifo_uint32_push_mul_steps f src m mem))),
           snd (last (fifo_uint32_push_mul_steps f src m mem)))"
  by (auto simp: fifo_uint32_push_mul_def fifo_uint32_push_mul_steps_def Let_def case_prod_beta
      split: if_splits)

lemma uint32_push_mul_steps_first:
  "hd (fifo_uint32_push_mul_steps f src m mem) = (f\<lparr>free_size := free_size f - m\<rparr>, mem)"
  by (simp add: fifo_uint32_push_mul_steps_def Let_def)

lemma uint32_push_mul_steps_free:
  "list_all (\<lambda>s. free_size (fst s) = free_size f - m) (fifo_uint32_push_mul_steps f src m mem)"
  by (simp add: fifo_uint32_push_mul_steps_def Let_def)

lemma common_push_mul_free:
  "map_option fst (fifo_common_push_mul (Some g) src m mem) = Some 0 \<Longrightarrow>
   map_option (\<lambda>r. map_option free_size (fst (snd r)))
     (fifo_common_push_mul (Some g) src m mem) = Some (Some (free_size g - m))"
  by (auto simp: fifo_common_push_mul_def Let_def case_prod_beta split: if_splits)

lemma common_push_mul_steps:
  "map_option fst (fifo_common_push_mul (Some g) src m mem) = Some 0 \<Longrightarrow>
   fifo_common_push_mul (Some g) src m mem =
     Some (0, Some (fst (last (fifo_common_push_mul_steps g src m mem))),
           snd (last (fifo_common_push_mul_steps g src m mem)))"
  by (auto simp: fifo_common_push_mul_def fifo_common_push_mul_steps_def Let_def case_prod_beta
      split: if_splits)

lemma common_push_mul_steps_first:
  "hd (fifo_common_push_mul_steps g src m mem) = (g\<lparr>free_size := free_size g - m\<rparr>, mem)"
  by (simp add: fifo_common_push_mul_steps_def Let_def)

lemma common_push_mul_steps_free:
  "list_all (\<lambda>s. free_size (fst s) = free_size g - m) (fifo_common_push_mul_steps g src m mem)"
  by (simp add: fifo_common_push_mul_steps_def Let_def)

lemma uint8_push_mul_no_wrap:
  "map_option fst (fifo_uint8_push_mul (Some f) src m mem) = Some 0 \<Longrightarrow>
   unat (free_size f - m) + unat m = unat (free_size f)"
  by (rule word_sub_no_wrap) (auto simp: uint8_push_mul_status split: if_splits)

lemma uint16_push_mul_no_wrap:
  "map_option fst (fifo_uint16_push_mul (Some f) src m mem) = Some 0 \<Longrightarrow>
   unat (free_size f - m) + unat m = unat (free_size f)"
  by (rule word_sub_no_wrap) (auto simp: uint16_push_mul_status split: if_splits)

lemma uint32_push_mul_no_wrap:
  "map_option fst (fifo_uint32_push_mul (Some f) src m mem) = Some 0 \<Longrightarrow>
   unat (free_size f - m) + unat m = unat (free_size f)"
  by (rule word_sub_no_wrap) (auto simp: uint32_push_mul_status split: if_splits)

lemma common_push_mul_no_wrap:
  "map_option fst (fifo_common_push_mul (Some g) src m mem) = Some 0 \<Longrightarrow>
   unat (free_size g - m) + unat m = unat (free_size g)"
  by (rule word_sub_no_wrap) (auto simp: common_push_mul_status split: if_splits)

lemma uint16_pop_mul_status:
  "map_option fst (fifo_uint16_pop_mul fifo dst m mem) =
     (case fifo of None \<Rightarrow> Some (- 1)
      | Some f \<Rightarrow> if dst = NULL then Some (- 2) else if m = 0 then Some (- 3)
                  else if max_size f < m then Some (- 4)
                  else if limit_ptr f < head_ptr f then None else Some 0)"
  by (cases fifo) (auto simp: fifo_uint16_pop_mul_def Let_def case_prod_beta)

lemma uint32_pop_mul_status:
  "map_option fst (fifo_uint32_pop_mul fifo dst m mem) =
     (case fifo of None \<Rightarrow> Some (- 1)
      | Some f \<Rightarrow> if dst = NULL then Some (- 2) else if m = 0 then Some (- 3)
                  else if max_size f < m then Some (- 4)
                  else if limit_ptr f < head_ptr f then None else Some 0)"
  by (cases fifo) (auto simp: fifo_uint32_pop_mul_def Let_def case_prod_beta)

lemma common_pop_mul_status:
  "map_option fst (fifo_common_pop_mul cfifo dst m mem) =
     (case cfifo of None \<Rightarrow> Some (- 1)
      | Some f \<Rightarrow> if dst = NULL then Some (- 2) else if m = 0 then Some (- 3)
                  else if max_size f < m then Some (- 4)
                  else map_option (\<lambda>r. 0) (fifo_common_pop_mul cfifo dst m mem))"
  by (cases cfifo) (auto simp: fifo_common_pop_mul_def Let_def case_prod_beta)

lemma uint8_push_mul_error:
  "fifo_uint8_push_mul fifo src m mem = Some r \<Longrightarrow> fst r \<noteq> 0 \<Longrightarrow> snd r = (fifo, mem)"
  by (cases fifo) (auto simp: fifo_uint8_push_mul_def Let_def case_prod_beta split: if_splits)

lemma uint8_pop_mul_error:
  "fifo_uint8_pop_mul fifo dst m mem = Some r \<Longrightarrow> fst r \<noteq> 0 \<Longrightarrow> snd r = (fifo, mem)"
  by (cases fifo) (auto simp: fifo_uint8_pop_mul_def Let_def case_prod_beta split: if_splits)

lemma uint16_push_mul_error:
  "fifo_uint16_push_mul fifo src m mem = Some r \<Longrightarrow> fst r \<noteq> 0 \<Longrightarrow> snd r = (fifo, mem)"
  by (cases fifo) (auto simp: fifo_uint16_push_mul_def Let_def case_prod_beta split: if_splits)

lemma uint16_pop_mul_error:
  "fifo_uint16_pop_mul fifo dst m mem = Some r \<Longrightarrow> fst r \<noteq> 0 \<Longrightarrow> snd r = (fifo, mem)"
  by (cases fifo) (auto simp: fifo_uint16_pop_mul_def Let_def case_prod_beta split: if_splits)

lemma uint32_push_mul_error:
  "fifo_uint32_push_mul fifo src m mem = Some r \<Longrightarrow> fst r \<noteq> 0 \<Longrightarrow> snd r = (fifo, mem)"
  by (cases fifo) (auto simp: fifo_uint32_push_mul_def Let_def case_prod_beta split: if_splits)

lemma uint32_pop_mul_error:
  "fifo_uint32_pop_mul fifo dst m mem = Some r \<Longrightarrow> fst r \<noteq> 0 \<Longrightarrow> snd r = (fifo, mem)"
  by (cases fifo) (auto simp: fifo_uint32_pop_mul_def Let_def case_prod_beta split: if_splits)

lemma common_push_mul_error:
  "fifo_common_push_mul cfifo src m mem = Some r \<Longrightarrow> fst r \<noteq> 0 \<Longrightarrow> snd r = (cfifo, mem)"
  by (cases cfifo) (auto simp: fifo_common_push_mul_def Let_def case_prod_beta split: if_splits)

lemma common_pop_mul_error:
  "fifo_common_pop_mul cfifo dst m mem = Some r \<Longrightarrow> fst r \<noteq> 0 \<Longrightarrow> snd r = (cfifo, mem)"
  by (cases cfifo) (auto simp: fifo_common_pop_mul_def Let_def case_prod_beta split: if_splits)

section \<open>Single pushes and pops\<close>

lemma uint8_push_all_nowrap:
  "tail_ptr f + length es \<le> limit_ptr f \<Longrightarrow> length es \<le> unat (free_size f) \<Longrightarrow>
   fifo_uint8_push_all (Some f) es mem =
     (replicate (length es) 0,
      Some (f\<lparr>tail_ptr := (if es \<noteq> [] \<and> tail_ptr f + length es = limit_ptr f then buffer f
                           else tail_ptr f + length es),
              free_size := free_size f - of_nat (length es)\<rparr>),
      write_bytes mem (tail_ptr f) es)"
proof (induction es arbitrary: f mem)
  case Nil
  then show ?case by simp
next
  case (Cons v vs)
  from Cons.prems have "0 < unat (free_size f)" by simp
  then have nz: "free_size f \<noteq> 0" by (simp add: unat_gt_0)
  show ?case
  proof (cases "vs = []")
    case True
    with nz Cons.prems show ?thesis
      by (auto simp: fifo_uint8_push_def Let_def)
  next
    case False
    let ?f1 = "f\<lparr>tail_ptr := tail_ptr f + 1, free_size := free_size f - 1\<rparr>"
    from False Cons.prems have nowrap: "\<not> limit_ptr f \<le> tail_ptr f + 1"
      by (cases vs) auto
    have step: "fifo_uint8_push (Some f) v mem = (0, Some ?f1, mem(tail_ptr f := v))"
      using nz nowrap by (simp add: fifo_uint8_push_def Let_def)
    have p1: "tail_ptr ?f1 + length vs \<le> limit_ptr ?f1"
      using Cons.prems by simp
    have p2: "length vs \<le> unat (free_size ?f1)"
      using Cons.prems nz by (simp add: unat_minus_one_16)
    have rest: "fifo_uint8_push_all (Some ?f1) vs (mem(tail_ptr f := v)) =
        (replicate (length vs) 0,
         Some (?f1\<lparr>tail_ptr := (if vs \<noteq> [] \<and> tail_ptr ?f1 + length vs = limit_ptr ?f1
                                 then buffer ?f1 else tail_ptr ?f1 + length vs),
                    free_size := free_size ?f1 - of_nat (length vs)\<rparr>),
         write_bytes (mem(tail_ptr f := v)) (tail_ptr ?f1) vs)"
      by (rule Cons.IH [OF p1 p2])
    show ?thesis
      using rest step False by (auto simp: algebra_simps)
  qed
qed

lemma uint8_pop_n_values:
  "head_ptr f + k \<le> limit_ptr f \<Longrightarrow> unat (free_size f) + k \<le> unat (max_size f) \<Longrightarrow>
   val \<noteq> NULL \<Longrightarrow> val < head_ptr f \<or> limit_ptr f \<le> val \<Longrightarrow>
   fst (fifo_uint8_pop_n (Some f) val k mem) = map (Pair 0) (read_bytes mem (head_ptr f) k)"
proof (induction k arbitrary: f mem)
  case 0
  then show ?case by simp
next
  case (Suc k)
  from Suc.prems have lt: "unat (free_size f) < unat (max_size f)" by simp
  then have ne: "free_size f \<noteq> max_size f" by auto
  have "unat (max_size f) < 65536"
    by (rule unat16_bound)
  with lt have inc: "unat (free_size f + 1) = unat (free_size f) + 1"
    by (simp add: unat_word_ariths)
  show ?case
  proof (cases "k = 0")
    case True
    with ne Suc.prems show ?thesis
      by (simp add: fifo_uint8_pop_def Let_def case_prod_beta)
  next
    case False
    let ?f1 = "f\<lparr>head_ptr := head_ptr f + 1, free_size := free_size f + 1\<rparr>"
    let ?mem1 = "mem(val := mem (head_ptr f))"
    from False Suc.prems have nowrap: "\<not> limit_ptr f \<le> head_ptr f + 1" by auto
    have step: "fifo_uint8_pop (Some f) val mem = (0, Some ?f1, ?mem1)"
      using ne nowrap Suc.prems by (simp add: fifo_uint8_pop_def Let_def)
    have p1: "head_ptr ?f1 + k \<le> limit_ptr ?f1" using Suc.prems by simp
    have p2: "unat (free_size ?f1) + k \<le> unat (max_size ?f1)"
      using Suc.prems inc by simp
    have p4: "val < head_ptr ?f1 \<or> limit_ptr ?f1 \<le> val" using Suc.prems by auto
    have rd: "read_bytes ?mem1 (Suc (head_ptr f)) k = read_bytes mem (Suc (head_ptr f)) k"
      using Suc.prems by (intro read_bytes_fun_upd) auto
    have out: "val \<noteq> head_ptr f" using Suc.prems by auto
    have rest: "fst (fifo_uint8_pop_n (Some ?f1) val k ?mem1) =
        map (Pair 0) (read_bytes ?mem1 (head_ptr ?f1) k)"
      by (rule Suc.IH [OF p1 p2 Suc.prems(3) p4])
    show ?thesis
      using rest step rd out by (simp add: case_prod_beta)
  qed
qed

lemma uint16_push_all_nowrap:
  "tail_ptr f + 2 * length es \<le> limit_ptr f \<Longrightarrow> length es \<le> unat (free_size f) \<Longrightarrow>
   fifo_uint16_push_all (Some f) es mem =
     (replicate (length es) 0,
      Some (f\<lparr>tail_ptr := (if es \<noteq> [] \<and> tail_ptr f + 2 * length es = limit_ptr f then buffer f
                           else tail_ptr f + 2 * length es),
              free_size := free_size f - of_nat (length es)\<rparr>),
      store_u16s mem (tail_ptr f) es)"
proof (induction es arbitrary: f mem)
  case Nil
  then show ?case by simp
next
  case (Cons v vs)
  from Cons.prems have "0 < unat (free_size f)" by simp
  then have nz: "free_size f \<noteq> 0" by (simp add: unat_gt_0)
  show ?case
  proof (cases "vs = []")
    case True
    with nz Cons.prems show ?thesis
      by (auto simp: fifo_uint16_push_def Let_def)
  next
    case False
    let ?f1 = "f\<lparr>tail_ptr := tail_ptr f + 2, free_size := free_size f - 1\<rparr>"
    from False Cons.prems have nowrap: "\<not> limit_ptr f \<le> tail_ptr f + 2"
      by (cases vs) auto
    have step: "fifo_uint16_push (Some f) v mem = (0, Some ?f1, store_u16 mem (tail_ptr f) v)"
      using nz nowrap by (simp add: fifo_uint16_push_def Let_def)
    have p1: "tail_ptr ?f1 + 2 * length vs \<le> limit_ptr ?f1"
      using Cons.prems by simp
    have p2: "length vs \<le> unat (free_size ?f1)"
      using Cons.prems nz by (simp add: unat_minus_one_16)
    have rest: "fifo_uint16_push_all (Some ?f1) vs (store_u16 mem (tail_ptr f) v) =
        (replicate (length vs) 0,
         Some (?f1\<lparr>tail_ptr := (if vs \<noteq> [] \<and> tail_ptr ?f1 + 2 * length vs = limit_ptr ?f1
                                 then buffer ?f1 else tail_ptr ?f1 + 2 * length vs),
                    free_size := free_size ?f1 - of_nat (length vs)\<rparr>),
         store_u16s (store_u16 mem (tail_ptr f) v) (tail_ptr ?f1) vs)"
      by (rule Cons.IH [OF p1 p2])
    show ?thesis
      using rest step False by (auto simp: algebra_simps)
  qed
qed

lemma uint16_pop_n_values:
  "head_ptr f + 2 * k \<le> limit_ptr f \<Longrightarrow> unat (free_size f) + k \<le> unat (max_size f) \<Longrightarrow>
   val \<noteq> NULL \<Longrightarrow> val + 2 \<le> head_ptr f \<or> limit_ptr f \<le> val \<Longrightarrow>
   fst (fifo_uint16_pop_n (Some f) val k mem) = map (Pair 0) (load_u16s mem (head_ptr f) k)"
proof (induction k arbitrary: f mem)
  case 0
  then show ?case by simp
next
  case (Suc k)
  from Suc.prems have lt: "unat (free_size f) < unat (max_size f)" by simp
  then have ne: "free_size f \<noteq> max_size f" by auto
  have "unat (max_size f) < 65536"
    by (rule unat16_bound)
  with lt have inc: "unat (free_size f + 1) = unat (free_size f) + 1"
    by (simp add: unat_word_ariths)
  let ?mem1 = "store_u16 mem val (load_u16 mem (head_ptr f))"
  have got: "load_u16 ?mem1 val = load_u16 mem (head_ptr f)"
    by (rule load_store_u16)
  show ?case
  proof (cases "k = 0")
    case True
    with ne Suc.prems got show ?thesis
      by (simp add: fifo_uint16_pop_def Let_def case_prod_beta)
  next
    case False
    let ?f1 = "f\<lparr>head_ptr := head_ptr f + 2, free_size := free_size f + 1\<rparr>"
    from False Suc.prems have nowrap: "\<not> limit_ptr f \<le> head_ptr f + 2" by auto
    have step: "fifo_uint16_pop (Some f) val mem = (0, Some ?f1, ?mem1)"
      using ne nowrap Suc.prems by (simp add: fifo_uint16_pop_def Let_def)
    have p1: "head_ptr ?f1 + 2 * k \<le> limit_ptr ?f1" using Suc.prems by simp
    have p2: "unat (free_size ?f1) + k \<le> unat (max_size ?f1)"
      using Suc.prems inc by simp
    have p4: "val + 2 \<le> head_ptr ?f1 \<or> limit_ptr ?f1 \<le> val" using Suc.prems by auto
    have rd: "load_u16s ?mem1 (head_ptr f + 2) k = load_u16s mem (head_ptr f + 2) k"
      using Suc.prems by (intro load_u16s_store_u16_other) auto
    have rest: "fst (fifo_uint16_pop_n (Some ?f1) val k ?mem1) =
        map (Pair 0) (load_u16s ?mem1 (head_ptr ?f1) k)"
      by (rule Suc.IH [OF p1 p2 Suc.prems(3) p4])
    show ?thesis
      using rest step rd got by (simp add: case_prod_beta)
  qed
qed

lemma uint32_push_all_nowrap:
  "tail_ptr f + 4 * length es \<le> limit_ptr f \<Longrightarrow> length es \<le> unat (free_size f) \<Longrightarrow>
   fifo_uint32_push_all (Some f) es mem =
     (replicate (length es) 0,
      Some (f\<lparr>tail_ptr := (if es \<noteq> [] \<and> tail_ptr f + 4 * length es = limit_ptr f then buffer f
                           else tail_ptr f + 4 * length es),
              free_size := free_size f - of_nat (length es)\<rparr>),
      store_u32s mem (tail_ptr f) es)"
proof (induction es arbitrary: f mem)
  case Nil
  then show ?case by simp
next
  case (Cons v vs)
  from Cons.prems have "0 < unat (free_size f)" by simp
  then have nz: "free_size f \<noteq> 0" by (simp add: unat_gt_0)
  show ?case
  proof (cases "vs = []")
    case True
    with nz Cons.prems show ?thesis
      by (auto simp: fifo_uint32_push_def Let_def)
  next
    case False
    let ?f1 = "f\<lparr>tail_ptr := tail_ptr f + 4, free_size := free_size f - 1\<rparr>"
    from False Cons.prems have nowrap: "\<not> limit_ptr f \<le> tail_ptr f + 4"
      by (cases vs) auto
    have step: "fifo_uint32_push (Some f) v mem = (0, Some ?f1, store_u32 mem (tail_ptr f) v)"
      using nz nowrap by (simp add: fifo_uint32_push_def Let_def)
    have p1: "tail_ptr ?f1 + 4 * length vs \<le> limit_ptr ?f1"
      using Cons.prems by simp
    have p2: "length vs \<le> unat (free_size ?f1)"
      using Cons.prems nz by (simp add: unat_minus_one_16)
    have rest: "fifo_uint32_push_all (Some ?f1) vs (store_u32 mem (tail_ptr f) v) =
        (replicate (length vs) 0,
         Some (?f1\<lparr>tail_ptr := (if vs \<noteq> [] \<and> tail_ptr ?f1 + 4 * length vs = limit_ptr ?f1
                                 then buffer ?f1 else tail_ptr ?f1 + 4 * length vs),
                    free_size := free_size ?f1 - of_nat (length vs)\<rparr>),
         store_u32s (store_u32 mem (tail_ptr f) v) (tail_ptr ?f1) vs)"
      by (rule Cons.IH [OF p1 p2])
    show ?thesis
      using rest step False by (auto simp: algebra_simps)
  qed
qed

lemma uint32_pop_n_values:
  "head_ptr f + 4 * k \<le> limit_ptr f \<Longrightarrow> unat (free_size f) + k \<le> unat (max_size f) \<Longrightarrow>
   val \<noteq> NULL \<Longrightarrow> val + 4 \<le> head_ptr f \<or> limit_ptr f \<le> val \<Longrightarrow>
   fst (fifo_uint32_pop_n (Some f) val k mem) = map (Pair 0) (load_u32s mem (head_ptr f) k)"
proof (induction k arbitrary: f mem)
  case 0
  then show ?case by simp
next
  case (Suc k)
  from Suc.prems have lt: "unat (free_size f) < unat (max_size f)" by simp
  then have ne: "free_size f \<noteq> max_size f" by auto
  have "unat (max_size f) < 65536"
    by (rule unat16_bound)
  with lt have inc: "unat (free_size f + 1) = unat (free_size f) + 1"
    by (simp add: unat_word_ariths)
  let ?mem1 = "store_u32 mem val (load_u32 mem (head_ptr f))"
  have got: "load_u32 ?mem1 val = load_u32 mem (head_ptr f)"
    by (rule load_store_u32)
  show ?case
  proof (cases "k = 0")
    case True
    with ne Suc.prems got show ?thesis
      by (simp add: fifo_uint32_pop_def Let_def case_prod_beta)
  next
    case False
    let ?f1 = "f\<lparr>head_ptr := head_ptr f + 4, free_size := free_size f + 1\<rparr>"
    from False Suc.prems have nowrap: "\<not> limit_ptr f \<le> head_ptr f + 4" by auto
    have step: "fifo_uint32_pop (Some f) val mem = (0, Some ?f1, ?mem1)"
      using ne nowrap Suc.prems by (simp add: fifo_uint32_pop_def Let_def)
    have p1: "head_ptr ?f1 + 4 * k \<le> limit_ptr ?f1" using Suc.prems by simp
    have p2: "unat (free_size ?f1) + k \<le> unat (max_size ?f1)"
      using Suc.prems inc by simp
    have p4: "val + 4 \<le> head_ptr ?f1 \<or> limit_ptr ?f1 \<le> val" using Suc.prems by auto
    have rd: "load_u32s ?mem1 (head_ptr f + 4) k = load_u32s mem (head_ptr f + 4) k"
      using Suc.prems by (intro load_u32s_store_u32_other) auto
    have rest: "fst (fifo_uint32_pop_n (Some ?f1) val k ?mem1) =
        map (Pair 0) (load_u32s ?mem1 (head_ptr ?f1) k)"
      by (rule Suc.IH [OF p1 p2 Suc.prems(3) p4])
    show ?thesis
      using rest step rd got by (simp add: case_prod_beta)
  qed
qed

lemma common_push_all_nowrap:
  assumes "unat (entry_size f) = e" and "0 < e"
    and "tail_ptr f + n * e \<le> limit_ptr f" and "n \<le> unat (free_size f)"
    and "src \<noteq> NULL"
    and "src + n * e \<le> tail_ptr f \<or> tail_ptr f + n * e \<le> src"
  shows "fifo_common_push_all (Some f) src e n mem =
     (replicate n 0,
      Some (f\<lparr>tail_ptr := (if n \<noteq> 0 \<and> tail_ptr f + n * e = limit_ptr f then buffer f
                           else tail_ptr f + n * e),
              free_size := free_size f - of_nat n\<rparr>),
      write_bytes mem (tail_ptr f) (read_bytes mem src (n * e)))"
  using assms
proof (induction n arbitrary: f mem src)
  case 0
  then show ?case by simp
next
  case (Suc n)
  note e = Suc.prems(1) and epos = Suc.prems(2)
  from Suc.prems have "0 < unat (free_size f)" by simp
  then have nz: "free_size f \<noteq> 0" by (simp add: unat_gt_0)
  let ?mem1 = "write_bytes mem (tail_ptr f) (read_bytes mem src e)"
  show ?case
  proof (cases "n = 0")
    case True
    with nz Suc.prems show ?thesis
      by (auto simp: fifo_common_push_def Let_def memcpy_def)
  next
    case False
    let ?f1 = "f\<lparr>tail_ptr := tail_ptr f + e, free_size := free_size f - 1\<rparr>"
    have ne_pos: "0 < n * e" using False epos by simp
    have le3: "tail_ptr f + e + n * e \<le> limit_ptr f"
      using Suc.prems(3) by (simp add: algebra_simps)
    have nowrap: "\<not> limit_ptr f \<le> tail_ptr f + e"
      using ne_pos le3 by linarith
    have step: "fifo_common_push (Some f) src mem = (0, Some ?f1, ?mem1)"
      using nz nowrap Suc.prems(5) e by (simp add: fifo_common_push_def Let_def memcpy_def)
    have p1: "unat (entry_size ?f1) = e" using e by simp
    have p3: "tail_ptr ?f1 + n * e \<le> limit_ptr ?f1"
      using Suc.prems by (simp add: algebra_simps)
    have p4: "n \<le> unat (free_size ?f1)"
      using Suc.prems nz by (simp add: unat_minus_one_16)
    have p5: "src + e \<noteq> NULL" using Suc.prems by simp
    have p6: "src + e + n * e \<le> tail_ptr ?f1 \<or> tail_ptr ?f1 + n * e \<le> src + e"
      using Suc.prems by (auto simp: algebra_simps)
    have rest: "fifo_common_push_all (Some ?f1) (src + e) e n ?mem1 =
        (replicate n 0,
         Some (?f1\<lparr>tail_ptr := (if n \<noteq> 0 \<and> tail_ptr ?f1 + n * e = limit_ptr ?f1
                                 then buffer ?f1 else tail_ptr ?f1 + n * e),
                    free_size := free_size ?f1 - of_nat n\<rparr>),
         write_bytes ?mem1 (tail_ptr ?f1) (read_bytes ?mem1 (src + e) (n * e)))"
      by (rule Suc.IH [OF p1 epos p3 p4 p5 p6])
    have src_same: "read_bytes ?mem1 (src + e) (n * e) = read_bytes mem (src + e) (n * e)"
      using Suc.prems(6) by (intro read_bytes_write_bytes_disjoint) (auto simp: algebra_simps)
    have cat: "read_bytes mem src (Suc n * e) =
        read_bytes mem src e @ read_bytes mem (src + e) (n * e)"
      using read_bytes_append [of mem src e "n * e"] by simp
    have mem_eq: "write_bytes ?mem1 (tail_ptr f + e) (read_bytes mem (src + e) (n * e)) =
        write_bytes mem (tail_ptr f) (read_bytes mem src (Suc n * e))"
      by (simp only: cat write_bytes_append length_read_bytes)
    show ?thesis
      using rest step False src_same mem_eq by (auto simp: algebra_simps)
  qed
qed

lemma common_pop_n_copies:
  assumes "unat (entry_size f) = e" and "0 < e"
    and "head_ptr f + k * e \<le> limit_ptr f" and "unat (free_size f) + k \<le> unat (max_size f)"
    and "dst \<noteq> NULL"
    and "dst + k * e \<le> head_ptr f \<or> head_ptr f + k * e \<le> dst"
  shows "fifo_common_pop_n (Some f) dst e k mem =
     (replicate k 0,
      Some (f\<lparr>head_ptr := (if k \<noteq> 0 \<and> head_ptr f + k * e = limit_ptr f then buffer f
                           else head_ptr f + k * e),
              free_size := free_size f + of_nat k\<rparr>),
      write_bytes mem dst (read_bytes mem (head_ptr f) (k * e)))"
  using assms
proof (induction k arbitrary: f mem dst)
  case 0
  then show ?case by simp
next
  case (Suc k)
  note e = Suc.prems(1) and epos = Suc.prems(2)
  from Suc.prems have lt: "unat (free_size f) < unat (max_size f)" by simp
  then have ne: "free_size f \<noteq> max_size f" by auto
  have "unat (max_size f) < 65536"
    by (rule unat16_bound)
  with lt have inc: "unat (free_size f + 1) = unat (free_size f) + 1"
    by (simp add: unat_word_ariths)
  let ?mem1 = "write_bytes mem dst (read_bytes mem (head_ptr f) e)"
  show ?case
  proof (cases "k = 0")
    case True
    with ne Suc.prems show ?thesis
      by (auto simp: fifo_common_pop_def Let_def memcpy_def)
  next
    case False
    let ?f1 = "f\<lparr>head_ptr := head_ptr f + e, free_size := free_size f + 1\<rparr>"
    have ke_pos: "0 < k * e" using False epos by simp
    have le3: "head_ptr f + e + k * e \<le> limit_ptr f"
      using Suc.prems(3) by (simp add: algebra_simps)
    have nowrap: "\<not> limit_ptr f \<le> head_ptr f + e"
      using ke_pos le3 by linarith
    have step: "fifo_common_pop (Some f) dst mem = (0, Some ?f1, ?mem1)"
      using ne nowrap Suc.prems(5) e by (simp add: fifo_common_pop_def Let_def memcpy_def)
    have p1: "unat (entry_size ?f1) = e" using e by simp
    have p3: "head_ptr ?f1 + k * e \<le> limit_ptr ?f1"
      using Suc.prems by (simp add: algebra_simps)
    have p4: "unat (free_size ?f1) + k \<le> unat (max_size ?f1)"
      using Suc.prems inc by simp
    have p5: "dst + e \<noteq> NULL" using Suc.prems by simp
    have p6: "dst + e + k * e \<le> head_ptr ?f1 \<or> head_ptr ?f1 + k * e \<le> dst + e"
      using Suc.prems by (auto simp: algebra_simps)
    have rest: "fifo_common_pop_n (Some ?f1) (dst + e) e k ?mem1 =
        (replicate k 0,
         Some (?f1\<lparr>head_ptr := (if k \<noteq> 0 \<and> head_ptr ?f1 + k * e = limit_ptr ?f1
                                 then buffer ?f1 else head_ptr ?f1 + k * e),
                    free_size := free_size ?f1 + of_nat k\<rparr>),
         write_bytes ?mem1 (dst + e) (read_bytes ?mem1 (head_ptr ?f1) (k * e)))"
      by (rule Suc.IH [OF p1 epos p3 p4 p5 p6])
    have src_same: "read_bytes ?mem1 (head_ptr f + e) (k * e) =
        read_bytes mem (head_ptr f + e) (k * e)"
      using Suc.prems(6) by (intro read_bytes_write_bytes_disjoint) (auto simp: algebra_simps)
    have cat: "read_bytes mem (head_ptr f) (Suc k * e) =
        read_bytes mem (head_ptr f) e @ read_bytes mem (head_ptr f + e) (k * e)"
      using read_bytes_append [of mem "head_ptr f" e "k * e"] by simp
    have mem_eq: "write_bytes ?mem1 (dst + e) (read_bytes mem (head_ptr f + e) (k * e)) =
        write_bytes mem dst (read_bytes mem (head_ptr f) (Suc k * e))"
      by (simp only: cat write_bytes_append length_read_bytes)
    show ?thesis
      using rest step False src_same mem_eq by (auto simp: algebra_simps)
  qed
qed

section \<open>Bulk push across the storage end\<close>

lemma uint8_push_all_append:
  "fifo_uint8_push_all fifo (xs @ ys) mem =
     (case fifo_uint8_push_all fifo xs mem of
        (ss, fifo1, mem1) \<Rightarrow>
          (case fifo_uint8_push_all fifo1 ys mem1 of
             (ts, fifo2, mem2) \<Rightarrow> (ss @ ts, fifo2, mem2)))"
  by (induction xs arbitrary: fifo mem) (auto split: prod.splits)

text \<open>
  The byte buffer's bulk push agrees with single pushes. On a descriptor whose tail lies
  in the storage, whose limit is the storage end and whose \<^verbatim>\<open>free_size\<close> is at most
  \<^verbatim>\<open>max_size\<close>, a bulk push of \<open>m \<le> free_size\<close> bytes from a source outside the storage
  returns 0 and leaves the descriptor and the whole memory that pushing the same bytes one
  at a time leaves, whether or not the run crosses the storage end; each single push
  returns 0.
\<close>

lemma uint8_push_mul_as_pushes:
  assumes tail: "buffer f \<le> tail_ptr f" "tail_ptr f < limit_ptr f"
    and lim: "limit_ptr f = buffer f + unat (max_size f)"
    and free: "free_size f \<le> max_size f"
    and src: "src \<noteq> NULL" and m: "m \<noteq> 0" "m \<le> free_size f"
    and disj: "src + unat m \<le> buffer f \<or> limit_ptr f \<le> src"
  shows "fifo_uint8_push_mul (Some f) src m mem =
           Some (0, snd (fifo_uint8_push_all (Some f) (read_bytes mem src (unat m)) mem)) \<and>
         fst (fifo_uint8_push_all (Some f) (read_bytes mem src (unat m)) mem) =
           replicate (unat m) 0"
proof (cases "limit_ptr f \<le> tail_ptr f + unat m")
  case False
  let ?es = "read_bytes mem src (unat m)"
  have nf: "\<not> free_size f < m" using m by (simp add: not_less)
  have p1: "tail_ptr f + length ?es \<le> limit_ptr f" using False by simp
  have p2: "length ?es \<le> unat (free_size f)" using m by (simp add: word_le_nat_alt)
  have m0: "0 < unat m" using m by (simp add: unat_gt_0)
  then have ne: "?es \<noteq> []" by (cases "unat m") auto
  have "fifo_uint8_push_all (Some f) ?es mem =
      (replicate (length ?es) 0,
       Some (f\<lparr>tail_ptr := (if ?es \<noteq> [] \<and> tail_ptr f + length ?es = limit_ptr f then buffer f
                            else tail_ptr f + length ?es),
               free_size := free_size f - of_nat (length ?es)\<rparr>),
       write_bytes mem (tail_ptr f) ?es)"
    by (rule uint8_push_all_nowrap [OF p1 p2])
  then show ?thesis
    using False src m nf
    by (simp add: fifo_uint8_push_mul_def Let_def memcpy_def)
next
  case True
  let ?d = "limit_ptr f - tail_ptr f"
  let ?r = "unat m - ?d"
  let ?es1 = "read_bytes mem src ?d"
  let ?es2 = "read_bytes mem (src + ?d) ?r"
  let ?mem1 = "write_bytes mem (tail_ptr f) ?es1"
  let ?f1 = "f\<lparr>tail_ptr := buffer f, free_size := free_size f - of_nat ?d\<rparr>"
  have nf: "\<not> free_size f < m" using m by (simp add: not_less)
  have d_pos: "0 < ?d" using tail by simp
  have d_le: "?d \<le> unat m" using True by simp
  have m_le: "unat m \<le> unat (free_size f)" using m by (simp add: word_le_nat_alt)
  have f_le: "unat (free_size f) \<le> unat (max_size f)" using free by (simp add: word_le_nat_alt)
  have split: "read_bytes mem src (unat m) = ?es1 @ ?es2"
    using read_bytes_append [of mem src ?d ?r] d_le by simp
  have d16: "?d < 65536" using d_le unat16_bound [of m] by simp
  have und: "unat (of_nat ?d :: 16 word) = ?d"
    using d16 by (simp add: unat_of_nat)
  have dw_le: "(of_nat ?d :: 16 word) \<le> m"
    using d_le und by (simp add: word_le_nat_alt)
  have dw_le2: "(of_nat ?d :: 16 word) \<le> free_size f"
    using d_le m_le und by (simp add: word_le_nat_alt)
  have m1: "unat (m - of_nat ?d) = ?r"
    using dw_le und by (simp add: unat_sub)
  have free1: "unat (free_size f - of_nat ?d) = unat (free_size f) - ?d"
    using dw_le2 und by (simp add: unat_sub)
  have es1_ne: "?es1 \<noteq> []" using d_pos by (cases ?d) auto
  have first: "fifo_uint8_push_all (Some f) ?es1 mem =
      (replicate ?d 0, Some ?f1, ?mem1)"
    using uint8_push_all_nowrap [of f ?es1 mem] tail d_le m_le es1_ne by simp
  have r_lt: "?r < unat (max_size f)" using d_pos d_le m_le f_le by arith
  have p1: "tail_ptr ?f1 + length ?es2 \<le> limit_ptr ?f1" using r_lt lim by simp
  have p2: "length ?es2 \<le> unat (free_size ?f1)" using free1 m_le by simp
  have second: "fifo_uint8_push_all (Some ?f1) ?es2 ?mem1 =
      (replicate ?r 0,
       Some (?f1\<lparr>tail_ptr := buffer f + ?r, free_size := free_size ?f1 - of_nat ?r\<rparr>),
       write_bytes ?mem1 (buffer f) ?es2)"
    using uint8_push_all_nowrap [OF p1 p2, of ?mem1] r_lt lim by simp
  have src2: "read_bytes ?mem1 (src + ?d) ?r = ?es2"
    using disj d_le tail by (intro read_bytes_write_bytes_disjoint) auto
  have "(of_nat ?d :: 16 word) + of_nat ?r = of_nat (?d + ?r)" by simp
  also have "?d + ?r = unat m" using d_le by simp
  finally have wsum: "(of_nat ?d :: 16 word) + of_nat ?r = m" by simp
  have fr: "free_size f - of_nat ?d - of_nat ?r = free_size f - m"
    using wsum by (simp add: algebra_simps)
  have seq: "fifo_uint8_push_all (Some f) (read_bytes mem src (unat m)) mem =
      (replicate (unat m) 0,
       Some (f\<lparr>tail_ptr := buffer f + ?r, free_size := free_size f - m\<rparr>),
       write_bytes ?mem1 (buffer f) ?es2)"
    using first second fr d_le
    by (simp add: split uint8_push_all_append replicate_add [symmetric])
  have nl: "\<not> limit_ptr f < tail_ptr f" using tail by simp
  have bulk: "fifo_uint8_push_mul (Some f) src m mem =
      Some (0, Some (f\<lparr>tail_ptr := buffer f + ?r, free_size := free_size f - m\<rparr>),
       write_bytes ?mem1 (buffer f) ?es2)"
    using True src m nf m1 src2 nl
    by (simp add: fifo_uint8_push_mul_def Let_def memcpy_def)
  show ?thesis using seq bulk by simp
qed

text \<open>
  The common buffer's bulk push does not agree with single pushes when an entry is wider
  than a byte. A buffer of capacity 4 with entries of 2 bytes lies at address 100; three
  entries are pushed and popped, so that it is empty with head and tail at entry 3. Two
  single pushes of the entries at 300 and 302 write entry 3 and entry 0. The bulk push of
  the same two entries multiplies the byte distance to the storage end by \<^verbatim>\<open>entry_size\<close>:
  it copies 4 bytes at entry 3, two of them past the storage end (addresses 108 and 109),
  and fills entry 0 from the bytes that follow the two source entries.
\<close>

lemma common_push_mul_split_overrun:
  "(case fifo_common_init (Some blank_fifo_common) 100 4 2 False src_mem of
      None \<Rightarrow> False
    | Some (s0, q0, m0) \<Rightarrow>
        let (ss, q1, m1) = fifo_common_push_all q0 300 2 3 m0;
            (rs, q2, m2) = fifo_common_pop_n q1 200 2 3 m1;
            (t1, r1, n1) = fifo_common_push q2 300 m2;
            (t2, r2, n2) = fifo_common_push r1 302 n1
        in s0 = 0 \<and> ss = [0, 0, 0] \<and> rs = [0, 0, 0] \<and>
       q2 = Some \<lparr>buffer = 100, head_ptr = 106, tail_ptr = 106, limit_ptr = 108,
                  max_size = 4, free_size = 4, entry_size = 2\<rparr> \<and>
       read_bytes m2 300 4 = [1, 2, 3, 4] \<and>
       [t1, t2] = [0, 0] \<and>
       read_bytes n2 100 10 = [3, 4, 3, 4, 5, 6, 1, 2, 0, 0] \<and>
       map_option tail_ptr r2 = Some 102 \<and>
       (case fifo_common_push_mul q2 300 2 m2 of
          None \<Rightarrow> False
        | Some (sb, qb, mb) \<Rightarrow>
            sb = 0 \<and> read_bytes mb 100 10 = [5, 6, 3, 4, 5, 6, 1, 2, 3, 4] \<and>
            map_option tail_ptr qb = Some 102))"
  by (simp add: fifo_common_init_def fifo_common_push_def fifo_common_pop_def
      fifo_common_push_mul_def INT_MAX_def Let_def memcpy_apply write_bytes_apply
      read_bytes_numeral numeral_3_eq_3)

text \<open>
  C1. Pushing \<open>count\<close> elements with \<^verbatim>\<open>push_mul\<close>, where the run starting at
  \<^verbatim>\<open>tail_ptr\<close> crosses the end of the storage, should leave the storage and the tail as
  pushing the same elements one at a time does.

  The \<^verbatim>\<open>uint16_t\<close> buffer does not. A buffer of capacity 4 at address 100 is initialised,
  two values are pushed and popped again, so that it is empty with head and tail at
  element 2. Three elements 1, 2, 3 (stored at address 200) are then pushed. The bulk push
  passes the element distance \<^verbatim>\<open>limit_ptr - tail_ptr = 2\<close> to \<^verbatim>\<open>memcpy\<close> as a byte count
  and advances the source by half of it: element 2 receives 1, elements 0 and 1 receive
  2 and 3, element 3 is not written, and the tail ends at element 2. Three single pushes
  write 1, 2 into elements 2, 3 and 3 into element 0, and leave the tail at element 1.
\<close>

theorem uint16_push_mul_split_mismatch:
  "(let mem0 = write_bytes zero_mem 200 [1, 0, 2, 0, 3, 0];
        (s0, q0, m0) = fifo_uint16_init (Some blank_fifo) 100 4 False mem0;
        (s1, q1, m1) = fifo_uint16_push q0 7 m0;
        (s2, q2, m2) = fifo_uint16_push q1 7 m1;
        (s3, q3, m3) = fifo_uint16_pop q2 300 m2;
        (s4, q4, m4) = fifo_uint16_pop q3 300 m3;
        (t1, r1, n1) = fifo_uint16_push q4 (load_u16 m4 200) m4;
        (t2, r2, n2) = fifo_uint16_push r1 (load_u16 m4 202) n1;
        (t3, r3, n3) = fifo_uint16_push r2 (load_u16 m4 204) n2
    in [s0, s1, s2, s3, s4] = [0, 0, 0, 0, 0] \<and>
       q4 = Some \<lparr>buffer = 100, head_ptr = 104, tail_ptr = 104, limit_ptr = 108,
                  max_size = 4, free_size = 4\<rparr> \<and>
       [load_u16 m4 200, load_u16 m4 202, load_u16 m4 204] = [1, 2, 3] \<and>
       [t1, t2, t3] = [0, 0, 0] \<and>
       read_bytes n3 100 8 = [3, 0, 7, 0, 1, 0, 2, 0] \<and>
       map_option tail_ptr r3 = Some 102 \<and>
       (case fifo_uint16_push_mul q4 200 3 m4 of
          None \<Rightarrow> False
        | Some (sb, qb, mb) \<Rightarrow>
            sb = 0 \<and> read_bytes mb 100 8 = [2, 0, 3, 0, 1, 0, 0, 0] \<and>
            map_option tail_ptr qb = Some 104))"
  by (simp add: fifo_uint16_init_def fifo_uint16_push_mul_def fifo_uint16_push_def
      fifo_uint16_pop_def Let_def store_u16_def load_u16_def write_bytes_apply memcpy_apply
      read_bytes_numeral)

section \<open>Bulk pop of more than is stored\<close>

lemma uint8_pop_mul_status:
  "map_option fst (fifo_uint8_pop_mul fifo dst m mem) =
     (case fifo of None \<Rightarrow> Some (- 1)
      | Some f \<Rightarrow> if dst = NULL then Some (- 2) else if m = 0 then Some (- 3)
                  else if uint (max_size f) - uint (free_size f) < uint m then Some (- 4)
                  else if limit_ptr f < head_ptr f then None else Some 0)"
  by (cases fifo) (auto simp: fifo_uint8_pop_mul_def Let_def case_prod_beta)

text \<open>
  The byte buffer's bulk pop compares the count with the stored count: with
  \<^verbatim>\<open>free_size \<le> max_size\<close>, a head that is not past the limit, a destination and a
  positive count it returns -4 exactly when the count exceeds \<^verbatim>\<open>max_size - free_size\<close>,
  and 0 otherwise.
\<close>

lemma uint8_pop_mul_insufficient_iff:
  assumes "dst \<noteq> NULL" and "m \<noteq> 0" and "free_size f \<le> max_size f"
    and "head_ptr f \<le> limit_ptr f"
  shows "(map_option fst (fifo_uint8_pop_mul (Some f) dst m mem) = Some (- 4)) =
           (unat (max_size f) - unat (free_size f) < unat m)"
    and "(map_option fst (fifo_uint8_pop_mul (Some f) dst m mem) = Some 0) =
           (unat m \<le> unat (max_size f) - unat (free_size f))"
proof -
  have le: "unat (free_size f) \<le> unat (max_size f)"
    using assms(3) by (simp add: word_le_nat_alt)
  have "(uint (max_size f) - uint (free_size f) < uint m) =
      (unat (max_size f) - unat (free_size f) < unat m)"
    using le by (rule stored_count_less_iff)
  then show "(map_option fst (fifo_uint8_pop_mul (Some f) dst m mem) = Some (- 4)) =
           (unat (max_size f) - unat (free_size f) < unat m)"
    and "(map_option fst (fifo_uint8_pop_mul (Some f) dst m mem) = Some 0) =
           (unat m \<le> unat (max_size f) - unat (free_size f))"
    using assms(1,2,4) by (auto simp: uint8_pop_mul_status)
qed

text \<open>
  C2. With a descriptor, a destination and a count that pass the first three checks,
  \<^verbatim>\<open>pop_mul\<close> should return the status -4 exactly when the count exceeds the number of
  stored elements, \<^verbatim>\<open>max_size - free_size\<close>.

  The \<^verbatim>\<open>uint16_t\<close> buffer compares the count with \<^verbatim>\<open>max_size\<close> instead: on a buffer of
  capacity 4 that was just initialised and holds nothing, a bulk pop of one element
  returns 0.
\<close>

theorem uint16_pop_mul_accepts_empty:
  "(let (s0, q0, m0) = fifo_uint16_init (Some blank_fifo) 100 4 False zero_mem
    in s0 = 0 \<and>
       map_option (\<lambda>f. uint (max_size f) - uint (free_size f)) q0 = Some 0 \<and>
       map_option fst (fifo_uint16_pop_mul q0 300 1 m0) = Some 0)"
  by (simp add: fifo_uint16_init_def fifo_uint16_pop_mul_def Let_def)

section \<open>Capacity conservation\<close>

lemma uint8_clear_invariant:
  "uint8_invariant fifo \<Longrightarrow> uint8_invariant (fst (snd (fifo_uint8_clear fifo mem)))"
  by (cases fifo) (auto simp: uint8_invariant_def fifo_uint8_clear_def Let_def unat_gt_0)

lemma uint8_pop_invariant:
  assumes "uint8_invariant fifo"
  shows "uint8_invariant (fst (snd (fifo_uint8_pop fifo val mem)))"
proof (cases fifo)
  case None
  then show ?thesis by (simp add: uint8_invariant_def fifo_uint8_pop_def)
next
  case (Some f)
  with assms have le: "free_size f \<le> max_size f" by (simp add: uint8_invariant_def)
  have "free_size f \<noteq> max_size f \<Longrightarrow> free_size f + 1 \<le> max_size f"
    using le by (simp add: inc_le word_less_def [symmetric] less_le)
  with Some assms show ?thesis
    by (auto simp: uint8_invariant_def fifo_uint8_pop_def Let_def unat_gt_0)
qed

lemma uint8_push_invariant:
  assumes "uint8_invariant fifo"
  shows "uint8_invariant (fst (snd (fifo_uint8_push fifo val mem)))"
proof (cases fifo)
  case None
  then show ?thesis by (simp add: uint8_invariant_def fifo_uint8_push_def)
next
  case (Some f)
  with assms have le: "unat (free_size f) \<le> unat (max_size f)"
    by (simp add: uint8_invariant_def word_le_nat_alt)
  have "free_size f - 1 \<le> max_size f" if "free_size f \<noteq> 0"
  proof -
    have "unat (free_size f - 1) = unat (free_size f) - 1"
      using that by (rule unat_minus_one_16)
    with le show ?thesis by (simp add: word_le_nat_alt)
  qed
  with Some assms show ?thesis
    by (auto simp: uint8_invariant_def fifo_uint8_push_def Let_def unat_gt_0)
qed

lemma uint8_pop_mul_invariant:
  assumes "uint8_invariant fifo"
  shows "\<exists>s fifo1 mem1. fifo_uint8_pop_mul fifo dst m mem = Some (s, fifo1, mem1) \<and>
           uint8_invariant fifo1"
proof (cases fifo)
  case None
  then show ?thesis by (simp add: uint8_invariant_def fifo_uint8_pop_mul_def)
next
  case (Some f)
  with assms have inv: "max_size f \<noteq> 0" "limit_ptr f = buffer f + unat (max_size f)"
    "buffer f \<le> head_ptr f" "head_ptr f < limit_ptr f"
    "buffer f \<le> tail_ptr f" "tail_ptr f < limit_ptr f" "free_size f \<le> max_size f"
    by (simp_all add: uint8_invariant_def)
  have le: "unat (free_size f) \<le> unat (max_size f)"
    using inv(7) by (simp add: word_le_nat_alt)
  show ?thesis
  proof (cases "dst = NULL \<or> m = 0 \<or> uint (max_size f) - uint (free_size f) < uint m")
    case True
    with Some assms show ?thesis by (auto simp: fifo_uint8_pop_mul_def)
  next
    case False
    then have ok: "dst \<noteq> NULL" "m \<noteq> 0"
      "\<not> uint (max_size f) - uint (free_size f) < uint m" by simp_all
    have a: "unat (free_size f) + unat m \<le> unat (max_size f)"
      using ok(3) le stored_count_less_iff [OF le, of m] by linarith
    then have "unat (free_size f) + unat m < 2 ^ LENGTH(16)"
      using unat16_bound [of "max_size f"] by simp
    then have "unat (free_size f + m) = unat (free_size f) + unat m"
      by (rule unat_add_lem [THEN iffD1])
    with a have free: "free_size f + m \<le> max_size f" by (simp add: word_le_nat_alt)
    have nl: "\<not> limit_ptr f < head_ptr f" using inv(4) by simp
    show ?thesis
    proof (cases "limit_ptr f \<le> head_ptr f + unat m")
      case True
      have d: "limit_ptr f - head_ptr f \<le> unat m" using True by simp
      have m1: "unat (m - of_nat (limit_ptr f - head_ptr f)) = unat m - (limit_ptr f - head_ptr f)"
        using d by (rule unat_sub_of_nat)
      have "buffer f + (unat m - (limit_ptr f - head_ptr f)) < limit_ptr f"
        using inv(2,3,4) a by arith
      then show ?thesis
        using Some ok True nl m1 free inv(1,2,5,6)
        by (simp add: fifo_uint8_pop_mul_def Let_def uint8_invariant_def)
    next
      case False
      then show ?thesis
        using Some ok free inv
        by (simp add: fifo_uint8_pop_mul_def Let_def uint8_invariant_def)
    qed
  qed
qed

lemma uint8_push_mul_invariant:
  assumes "uint8_invariant fifo"
  shows "\<exists>s fifo1 mem1. fifo_uint8_push_mul fifo src m mem = Some (s, fifo1, mem1) \<and>
           uint8_invariant fifo1"
proof (cases fifo)
  case None
  then show ?thesis by (simp add: uint8_invariant_def fifo_uint8_push_mul_def)
next
  case (Some f)
  with assms have inv: "max_size f \<noteq> 0" "limit_ptr f = buffer f + unat (max_size f)"
    "buffer f \<le> head_ptr f" "head_ptr f < limit_ptr f"
    "buffer f \<le> tail_ptr f" "tail_ptr f < limit_ptr f" "free_size f \<le> max_size f"
    by (simp_all add: uint8_invariant_def)
  have le: "unat (free_size f) \<le> unat (max_size f)"
    using inv(7) by (simp add: word_le_nat_alt)
  show ?thesis
  proof (cases "src = NULL \<or> m = 0 \<or> free_size f < m")
    case True
    with Some assms show ?thesis by (auto simp: fifo_uint8_push_mul_def)
  next
    case False
    then have ok: "src \<noteq> NULL" "m \<noteq> 0" "\<not> free_size f < m" by simp_all
    have sub: "unat (free_size f - m) + unat m = unat (free_size f)"
      using ok(3) by (rule word_sub_no_wrap)
    with le have free: "free_size f - m \<le> max_size f" by (simp add: word_le_nat_alt)
    have a: "unat m \<le> unat (max_size f)" using sub le by linarith
    have nl: "\<not> limit_ptr f < tail_ptr f" using inv(6) by simp
    show ?thesis
    proof (cases "limit_ptr f \<le> tail_ptr f + unat m")
      case True
      have d: "limit_ptr f - tail_ptr f \<le> unat m" using True by simp
      have m1: "unat (m - of_nat (limit_ptr f - tail_ptr f)) = unat m - (limit_ptr f - tail_ptr f)"
        using d by (rule unat_sub_of_nat)
      have "buffer f + (unat m - (limit_ptr f - tail_ptr f)) < limit_ptr f"
        using inv(2,5,6) a by arith
      then show ?thesis
        using Some ok True nl m1 free inv(1,2,3,4)
        by (simp add: fifo_uint8_push_mul_def Let_def uint8_invariant_def)
    next
      case False
      then show ?thesis
        using Some ok free inv
        by (simp add: fifo_uint8_push_mul_def Let_def uint8_invariant_def)
    qed
  qed
qed

lemma uint8_call_invariant:
  assumes "uint8_invariant fifo"
  shows "\<exists>s fifo1 mem1. fifo_uint8_call c fifo mem = Some (s, fifo1, mem1) \<and>
           uint8_invariant fifo1"
proof (cases c)
  case Clear
  have "fifo_uint8_call Clear fifo mem =
      Some (fst (fifo_uint8_clear fifo mem), fst (snd (fifo_uint8_clear fifo mem)),
            snd (snd (fifo_uint8_clear fifo mem)))" by simp
  with Clear uint8_clear_invariant [OF assms] show ?thesis by blast
next
  case (Pop val)
  have "fifo_uint8_call (Pop val) fifo mem =
      Some (fst (fifo_uint8_pop fifo val mem), fst (snd (fifo_uint8_pop fifo val mem)),
            snd (snd (fifo_uint8_pop fifo val mem)))" by simp
  with Pop uint8_pop_invariant [OF assms] show ?thesis by blast
next
  case (Pop_mul dst m)
  with uint8_pop_mul_invariant [OF assms] show ?thesis by simp
next
  case (Push val)
  have "fifo_uint8_call (Push val) fifo mem =
      Some (fst (fifo_uint8_push fifo val mem), fst (snd (fifo_uint8_push fifo val mem)),
            snd (snd (fifo_uint8_push fifo val mem)))" by simp
  with Push uint8_push_invariant [OF assms] show ?thesis by blast
next
  case (Push_mul src m)
  with uint8_push_mul_invariant [OF assms] show ?thesis by simp
qed

lemma uint8_calls_invariant:
  "uint8_invariant fifo \<Longrightarrow>
   \<exists>fifo1 mem1. fifo_uint8_calls cs fifo mem = Some (fifo1, mem1) \<and> uint8_invariant fifo1"
proof (induction cs arbitrary: fifo mem)
  case Nil
  then show ?case by simp
next
  case (Cons c cs)
  obtain s fifo1 mem1 where
    step: "fifo_uint8_call c fifo mem = Some (s, fifo1, mem1)" and inv: "uint8_invariant fifo1"
    using uint8_call_invariant [OF Cons.prems] by blast
  have "\<exists>fifo2 mem2. fifo_uint8_calls cs fifo1 mem1 = Some (fifo2, mem2) \<and>
      uint8_invariant fifo2"
    using inv by (rule Cons.IH)
  then show ?case using step by simp
qed

text \<open>
  The byte buffer conserves its capacity: after a successful \<^verbatim>\<open>init\<close>, every sequence of
  calls is defined and leaves a descriptor with \<^verbatim>\<open>free_size \<le> max_size\<close>, with head and
  tail in the storage.
\<close>

lemma uint8_capacity_conserved:
  assumes "fst (fifo_uint8_init fifo buf sz clear_flag mem) = 0"
  shows "\<exists>fifo1 mem1.
           fifo_uint8_calls cs (fst (snd (fifo_uint8_init fifo buf sz clear_flag mem)))
             (snd (snd (fifo_uint8_init fifo buf sz clear_flag mem))) = Some (fifo1, mem1) \<and>
           uint8_invariant fifo1"
proof -
  have "uint8_invariant (fst (snd (fifo_uint8_init fifo buf sz clear_flag mem)))"
    using assms
    by (cases fifo)
      (auto simp: fifo_uint8_init_def uint8_invariant_def Let_def unat_gt_0 split: if_splits)
  then show ?thesis by (rule uint8_calls_invariant)
qed

text \<open>
  C3. After any sequence of calls on an initialised buffer, \<^verbatim>\<open>free_size\<close> should stay
  within \<open>0 .. max_size\<close>.

  The same bulk pop on the empty \<^verbatim>\<open>uint16_t\<close> buffer of capacity 4 succeeds and leaves
  \<^verbatim>\<open>free_size = 5\<close> with \<^verbatim>\<open>max_size = 4\<close>.
\<close>

theorem uint16_free_size_exceeds_max_size:
  "(let (s0, q0, m0) = fifo_uint16_init (Some blank_fifo) 100 4 False zero_mem
    in s0 = 0 \<and>
       (case fifo_uint16_pop_mul q0 300 1 m0 of
          None \<Rightarrow> False
        | Some (s1, q1, m1) \<Rightarrow>
            s1 = 0 \<and> map_option free_size q1 = Some 5 \<and> map_option max_size q1 = Some 4))"
  by (simp add: fifo_uint16_init_def fifo_uint16_pop_mul_def Let_def)

section \<open>FIFO order\<close>

lemma fifo_order_uint8:
  assumes "buf \<noteq> NULL" and "sz \<noteq> 0" and "length es \<le> unat sz" and "k \<le> length es"
    and "val \<noteq> NULL" and "val < buf \<or> buf + unat sz \<le> val"
  shows "(case fifo_uint8_init (Some f0) buf sz clear_flag mem of
            (s0, q0, m0) \<Rightarrow>
              (case fifo_uint8_push_all q0 es m0 of
                 (ss, q1, m1) \<Rightarrow>
                   s0 = 0 \<and> ss = replicate (length es) 0 \<and>
                   fst (fifo_uint8_pop_n q1 val k m1) = map (Pair 0) (take k es)))"
proof -
  let ?f = "f0\<lparr>buffer := buf, head_ptr := buf, tail_ptr := buf,
                limit_ptr := buf + unat sz, max_size := sz, free_size := sz\<rparr>"
  let ?m0 = "if clear_flag then memset mem buf 0 (unat sz) else mem"
  have init: "fifo_uint8_init (Some f0) buf sz clear_flag mem = (0, Some ?f, ?m0)"
    using assms by (simp add: fifo_uint8_init_def Let_def)
  let ?f1 = "?f\<lparr>tail_ptr := (if es \<noteq> [] \<and> tail_ptr ?f + length es = limit_ptr ?f then buffer ?f
                           else tail_ptr ?f + length es),
              free_size := free_size ?f - of_nat (length es)\<rparr>"
  have push: "fifo_uint8_push_all (Some ?f) es ?m0 =
      (replicate (length es) 0, Some ?f1, write_bytes ?m0 buf es)"
    using uint8_push_all_nowrap [of ?f es ?m0] assms by simp
  have "length es < 2 ^ 16"
    using assms(3) unat16_bound [of sz] by simp
  then have un: "unat (of_nat (length es) :: 16 word) = length es"
    by (simp add: unat_of_nat)
  then have "(of_nat (length es) :: 16 word) \<le> sz"
    using assms(3) by (simp add: word_le_nat_alt)
  then have free: "unat (sz - of_nat (length es)) = unat sz - length es"
    using un by (simp add: unat_sub)
  have pop: "fst (fifo_uint8_pop_n (Some ?f1) val k (write_bytes ?m0 buf es)) =
      map (Pair 0) (read_bytes (write_bytes ?m0 buf es) (head_ptr ?f1) k)"
    using assms free by (intro uint8_pop_n_values) auto
  show ?thesis
    using init push pop assms(4) by (simp add: read_write_bytes_take)
qed

lemma fifo_order_uint16:
  assumes "buf \<noteq> NULL" and "sz \<noteq> 0" and "length es \<le> unat sz" and "k \<le> length es"
    and "val \<noteq> NULL" and "val + 2 \<le> buf \<or> buf + 2 * unat sz \<le> val"
  shows "(case fifo_uint16_init (Some f0) buf sz clear_flag mem of
            (s0, q0, m0) \<Rightarrow>
              (case fifo_uint16_push_all q0 es m0 of
                 (ss, q1, m1) \<Rightarrow>
                   s0 = 0 \<and> ss = replicate (length es) 0 \<and>
                   fst (fifo_uint16_pop_n q1 val k m1) = map (Pair 0) (take k es)))"
proof -
  let ?f = "f0\<lparr>buffer := buf, head_ptr := buf, tail_ptr := buf,
                limit_ptr := buf + 2 * unat sz, max_size := sz, free_size := sz\<rparr>"
  let ?m0 = "if clear_flag then memset mem buf 0 (unat sz) else mem"
  have init: "fifo_uint16_init (Some f0) buf sz clear_flag mem = (0, Some ?f, ?m0)"
    using assms by (simp add: fifo_uint16_init_def Let_def)
  let ?f1 = "?f\<lparr>tail_ptr := (if es \<noteq> [] \<and> tail_ptr ?f + 2 * length es = limit_ptr ?f
                            then buffer ?f else tail_ptr ?f + 2 * length es),
              free_size := free_size ?f - of_nat (length es)\<rparr>"
  have push: "fifo_uint16_push_all (Some ?f) es ?m0 =
      (replicate (length es) 0, Some ?f1, store_u16s ?m0 buf es)"
    using uint16_push_all_nowrap [of ?f es ?m0] assms by simp
  have "length es < 2 ^ 16"
    using assms(3) unat16_bound [of sz] by simp
  then have un: "unat (of_nat (length es) :: 16 word) = length es"
    by (simp add: unat_of_nat)
  then have "(of_nat (length es) :: 16 word) \<le> sz"
    using assms(3) by (simp add: word_le_nat_alt)
  then have free: "unat (sz - of_nat (length es)) = unat sz - length es"
    using un by (simp add: unat_sub)
  have pop: "fst (fifo_uint16_pop_n (Some ?f1) val k (store_u16s ?m0 buf es)) =
      map (Pair 0) (load_u16s (store_u16s ?m0 buf es) (head_ptr ?f1) k)"
    using assms free by (intro uint16_pop_n_values) auto
  show ?thesis
    using init push pop assms(4) by (simp add: load_store_u16s)
qed

lemma fifo_order_uint32:
  assumes "buf \<noteq> NULL" and "sz \<noteq> 0" and "length es \<le> unat sz" and "k \<le> length es"
    and "val \<noteq> NULL" and "val + 4 \<le> buf \<or> buf + 4 * unat sz \<le> val"
  shows "(case fifo_uint32_init (Some f0) buf sz clear_flag mem of
            (s0, q0, m0) \<Rightarrow>
              (case fifo_uint32_push_all q0 es m0 of
                 (ss, q1, m1) \<Rightarrow>
                   s0 = 0 \<and> ss = replicate (length es) 0 \<and>
                   fst (fifo_uint32_pop_n q1 val k m1) = map (Pair 0) (take k es)))"
proof -
  let ?f = "f0\<lparr>buffer := buf, head_ptr := buf, tail_ptr := buf,
                limit_ptr := buf + 4 * unat sz, max_size := sz, free_size := sz\<rparr>"
  let ?m0 = "if clear_flag then memset mem buf 0 (unat sz) else mem"
  have init: "fifo_uint32_init (Some f0) buf sz clear_flag mem = (0, Some ?f, ?m0)"
    using assms by (simp add: fifo_uint32_init_def Let_def)
  let ?f1 = "?f\<lparr>tail_ptr := (if es \<noteq> [] \<and> tail_ptr ?f + 4 * length es = limit_ptr ?f
                            then buffer ?f else tail_ptr ?f + 4 * length es),
              free_size := free_size ?f - of_nat (length es)\<rparr>"
  have push: "fifo_uint32_push_all (Some ?f) es ?m0 =
      (replicate (length es) 0, Some ?f1, store_u32s ?m0 buf es)"
    using uint32_push_all_nowrap [of ?f es ?m0] assms by simp
  have "length es < 2 ^ 16"
    using assms(3) unat16_bound [of sz] by simp
  then have un: "unat (of_nat (length es) :: 16 word) = length es"
    by (simp add: unat_of_nat)
  then have "(of_nat (length es) :: 16 word) \<le> sz"
    using assms(3) by (simp add: word_le_nat_alt)
  then have free: "unat (sz - of_nat (length es)) = unat sz - length es"
    using un by (simp add: unat_sub)
  have pop: "fst (fifo_uint32_pop_n (Some ?f1) val k (store_u32s ?m0 buf es)) =
      map (Pair 0) (load_u32s (store_u32s ?m0 buf es) (head_ptr ?f1) k)"
    using assms free by (intro uint32_pop_n_values) auto
  show ?thesis
    using init push pop assms(4) by (simp add: load_store_u32s)
qed

lemma fifo_order_common:
  assumes "buf \<noteq> NULL" and "sz \<noteq> 0" and "esz \<noteq> 0" and "n \<le> unat sz" and "k \<le> n"
    and "src \<noteq> NULL" and "dst \<noteq> NULL"
    and "src + n * unat esz \<le> buf \<or> buf + unat esz * unat sz \<le> src"
    and "dst + k * unat esz \<le> buf \<or> buf + unat esz * unat sz \<le> dst"
    and "unat esz * unat sz \<le> INT_MAX"
  shows "(case fifo_common_init (Some g0) buf sz esz clear_flag mem of
            None \<Rightarrow> False
          | Some (s0, q0, m0) \<Rightarrow>
              (case fifo_common_push_all q0 src (unat esz) n m0 of
                 (ss, q1, m1) \<Rightarrow>
                   (case fifo_common_pop_n q1 dst (unat esz) k m1 of
                      (rs, q2, m2) \<Rightarrow>
                        s0 = 0 \<and> ss = replicate n 0 \<and> rs = replicate k 0 \<and>
                        read_bytes m2 dst (k * unat esz) = read_bytes mem src (k * unat esz))))"
proof -
  let ?e = "unat esz"
  let ?f = "g0\<lparr>buffer := buf, head_ptr := buf, tail_ptr := buf,
                limit_ptr := buf + ?e * unat sz, entry_size := esz,
                max_size := sz, free_size := sz\<rparr>"
  let ?m0 = "if clear_flag then memset mem buf 0 (unat sz * ?e) else mem"
  have epos: "0 < ?e" using assms(3) by (simp add: unat_gt_0)
  have ne_le: "n * ?e \<le> ?e * unat sz"
    using assms(4) by (simp add: mult.commute)
  have ke_le: "k * ?e \<le> n * ?e"
    using assms(5) by simp
  have init: "fifo_common_init (Some g0) buf sz esz clear_flag mem = Some (0, Some ?f, ?m0)"
    using assms(1,2,3,10) by (simp add: fifo_common_init_def Let_def not_less)
  have src0: "read_bytes ?m0 src (n * ?e) = read_bytes mem src (n * ?e)"
    using assms(8) ne_le
    by (auto simp: memset_def mult.commute intro!: read_bytes_write_bytes_disjoint)
  let ?f1 = "?f\<lparr>tail_ptr := (if n \<noteq> 0 \<and> tail_ptr ?f + n * ?e = limit_ptr ?f then buffer ?f
                            else tail_ptr ?f + n * ?e),
              free_size := free_size ?f - of_nat n\<rparr>"
  let ?m1 = "write_bytes ?m0 buf (read_bytes mem src (n * ?e))"
  have d1: "src + n * ?e \<le> buf \<or> buf + n * ?e \<le> src"
    using assms(8) ne_le by linarith
  have t3: "buf + n * ?e \<le> buf + ?e * unat sz"
    using ne_le by linarith
  have push: "fifo_common_push_all (Some ?f) src ?e n ?m0 =
      (replicate n 0, Some ?f1, ?m1)"
    using common_push_all_nowrap [of ?f ?e n src ?m0] epos t3 assms(4,6) d1 src0
    by simp
  have "n < 2 ^ 16"
    using assms(4) unat16_bound [of sz] by simp
  then have un: "unat (of_nat n :: 16 word) = n"
    by (simp add: unat_of_nat)
  then have "(of_nat n :: 16 word) \<le> sz"
    using assms(4) by (simp add: word_le_nat_alt)
  then have free: "unat (sz - of_nat n) = unat sz - n"
    using un by (simp add: unat_sub)
  have d2: "dst + k * ?e \<le> buf \<or> buf + k * ?e \<le> dst"
    using assms(9) ke_le ne_le by linarith
  have h3: "buf + k * ?e \<le> buf + ?e * unat sz"
    using ke_le ne_le by linarith
  have h4: "unat (free_size ?f1) + k \<le> unat (max_size ?f1)"
    using free assms(4,5) by simp
  have pop: "fifo_common_pop_n (Some ?f1) dst ?e k ?m1 =
      (replicate k 0,
       Some (?f1\<lparr>head_ptr := (if k \<noteq> 0 \<and> head_ptr ?f1 + k * ?e = limit_ptr ?f1
                               then buffer ?f1 else head_ptr ?f1 + k * ?e),
                  free_size := free_size ?f1 + of_nat k\<rparr>),
       write_bytes ?m1 dst (read_bytes ?m1 (head_ptr ?f1) (k * ?e)))"
    using epos h3 h4 assms(7) d2 by (intro common_pop_n_copies) simp_all
  have stored: "read_bytes ?m1 buf (k * ?e) = read_bytes mem src (k * ?e)"
    using ke_le by (simp add: read_write_bytes_take take_read_bytes)
  have out: "read_bytes (write_bytes ?m1 dst (read_bytes ?m1 buf (k * ?e))) dst (k * ?e) =
      read_bytes ?m1 buf (k * ?e)"
    using read_write_bytes_take [of "k * ?e" "read_bytes ?m1 buf (k * ?e)" ?m1 dst] by simp
  show ?thesis
    using init push pop stored out by simp
qed

text \<open>
  C4. On a freshly initialised buffer of capacity at least \<open>n\<close>, pushing \<open>n\<close> elements
  one at a time succeeds every time, and popping \<open>k \<le> n\<close> elements one at a time
  afterwards succeeds every time and yields the first \<open>k\<close> pushed elements in the order
  of the pushes. This holds in the four variants. In the typed buffers the popped values
  are read from the variable \<open>val\<close> the caller passes, which lies outside the storage. In
  the common buffer the \<open>n\<close> entries are taken from consecutive places starting at \<open>src\<close>
  and the \<open>k\<close> popped entries are put in consecutive places starting at \<open>val\<close>, both
  outside the storage: the bytes popped are the first \<open>k\<close> entries of the source. The
  common buffer's \<^verbatim>\<open>init\<close> multiplies \<^verbatim>\<open>entry_size\<close> by \<^verbatim>\<open>size\<close> in \<^verbatim>\<open>int\<close>; the statement for
  it is for a product that fits, \<open>unat esz * unat sz \<le> INT_MAX\<close>, and says that \<^verbatim>\<open>init\<close>
  is then defined.
\<close>

theorem fifo_order:
  assumes "buf \<noteq> NULL" and "sz \<noteq> 0" and "n \<le> unat sz" and "k \<le> n" and "val \<noteq> NULL"
  shows
  "(length es8 = n \<and> (val < buf \<or> buf + unat sz \<le> val) \<longrightarrow>
      (case fifo_uint8_init (Some f0) buf sz clear_flag mem of
         (s0, q0, m0) \<Rightarrow>
           (case fifo_uint8_push_all q0 es8 m0 of
              (ss, q1, m1) \<Rightarrow>
                s0 = 0 \<and> ss = replicate n 0 \<and>
                fst (fifo_uint8_pop_n q1 val k m1) = map (Pair 0) (take k es8)))) \<and>
   (length es16 = n \<and> (val + 2 \<le> buf \<or> buf + 2 * unat sz \<le> val) \<longrightarrow>
      (case fifo_uint16_init (Some f0) buf sz clear_flag mem of
         (s0, q0, m0) \<Rightarrow>
           (case fifo_uint16_push_all q0 es16 m0 of
              (ss, q1, m1) \<Rightarrow>
                s0 = 0 \<and> ss = replicate n 0 \<and>
                fst (fifo_uint16_pop_n q1 val k m1) = map (Pair 0) (take k es16)))) \<and>
   (length es32 = n \<and> (val + 4 \<le> buf \<or> buf + 4 * unat sz \<le> val) \<longrightarrow>
      (case fifo_uint32_init (Some f0) buf sz clear_flag mem of
         (s0, q0, m0) \<Rightarrow>
           (case fifo_uint32_push_all q0 es32 m0 of
              (ss, q1, m1) \<Rightarrow>
                s0 = 0 \<and> ss = replicate n 0 \<and>
                fst (fifo_uint32_pop_n q1 val k m1) = map (Pair 0) (take k es32)))) \<and>
   (esz \<noteq> 0 \<and> unat esz * unat sz \<le> INT_MAX \<and> src \<noteq> NULL \<and>
    (src + n * unat esz \<le> buf \<or> buf + unat esz * unat sz \<le> src) \<and>
    (val + k * unat esz \<le> buf \<or> buf + unat esz * unat sz \<le> val) \<longrightarrow>
      (case fifo_common_init (Some g0) buf sz esz clear_flag mem of
         None \<Rightarrow> False
       | Some (s0, q0, m0) \<Rightarrow>
           (case fifo_common_push_all q0 src (unat esz) n m0 of
              (ss, q1, m1) \<Rightarrow>
                (case fifo_common_pop_n q1 val (unat esz) k m1 of
                   (rs, q2, m2) \<Rightarrow>
                     s0 = 0 \<and> ss = replicate n 0 \<and> rs = replicate k 0 \<and>
                     read_bytes m2 val (k * unat esz) = read_bytes mem src (k * unat esz)))))"
proof (intro conjI impI)
  assume a: "length es8 = n \<and> (val < buf \<or> buf + unat sz \<le> val)"
  show "(case fifo_uint8_init (Some f0) buf sz clear_flag mem of
         (s0, q0, m0) \<Rightarrow>
           (case fifo_uint8_push_all q0 es8 m0 of
              (ss, q1, m1) \<Rightarrow>
                s0 = 0 \<and> ss = replicate n 0 \<and>
                fst (fifo_uint8_pop_n q1 val k m1) = map (Pair 0) (take k es8)))"
    using fifo_order_uint8 [of buf sz es8 k val f0 clear_flag mem] assms a by simp
next
  assume a: "length es16 = n \<and> (val + 2 \<le> buf \<or> buf + 2 * unat sz \<le> val)"
  show "(case fifo_uint16_init (Some f0) buf sz clear_flag mem of
         (s0, q0, m0) \<Rightarrow>
           (case fifo_uint16_push_all q0 es16 m0 of
              (ss, q1, m1) \<Rightarrow>
                s0 = 0 \<and> ss = replicate n 0 \<and>
                fst (fifo_uint16_pop_n q1 val k m1) = map (Pair 0) (take k es16)))"
    using fifo_order_uint16 [of buf sz es16 k val f0 clear_flag mem] assms a by simp
next
  assume a: "length es32 = n \<and> (val + 4 \<le> buf \<or> buf + 4 * unat sz \<le> val)"
  show "(case fifo_uint32_init (Some f0) buf sz clear_flag mem of
         (s0, q0, m0) \<Rightarrow>
           (case fifo_uint32_push_all q0 es32 m0 of
              (ss, q1, m1) \<Rightarrow>
                s0 = 0 \<and> ss = replicate n 0 \<and>
                fst (fifo_uint32_pop_n q1 val k m1) = map (Pair 0) (take k es32)))"
    using fifo_order_uint32 [of buf sz es32 k val f0 clear_flag mem] assms a by simp
next
  assume a: "esz \<noteq> 0 \<and> unat esz * unat sz \<le> INT_MAX \<and> src \<noteq> NULL \<and>
    (src + n * unat esz \<le> buf \<or> buf + unat esz * unat sz \<le> src) \<and>
    (val + k * unat esz \<le> buf \<or> buf + unat esz * unat sz \<le> val)"
  show "(case fifo_common_init (Some g0) buf sz esz clear_flag mem of
         None \<Rightarrow> False
       | Some (s0, q0, m0) \<Rightarrow>
           (case fifo_common_push_all q0 src (unat esz) n m0 of
              (ss, q1, m1) \<Rightarrow>
                (case fifo_common_pop_n q1 val (unat esz) k m1 of
                   (rs, q2, m2) \<Rightarrow>
                     s0 = 0 \<and> ss = replicate n 0 \<and> rs = replicate k 0 \<and>
                     read_bytes m2 val (k * unat esz) = read_bytes mem src (k * unat esz))))"
    using a assms by (intro fifo_order_common) simp_all
qed

theorem fifo_order_witness:
  "(case fifo_uint8_init (Some blank_fifo) 100 4 False src_mem of
      (s0, q0, m0) \<Rightarrow>
        (case fifo_uint8_push_all q0 [10, 20, 30] m0 of
           (ss, q1, m1) \<Rightarrow>
             s0 = 0 \<and> ss = [0, 0, 0] \<and>
             fst (fifo_uint8_pop_n q1 200 2 m1) = [(0, 10), (0, 20)])) \<and>
   (case fifo_uint16_init (Some blank_fifo) 100 4 False src_mem of
      (s0, q0, m0) \<Rightarrow>
        (case fifo_uint16_push_all q0 [1000, 2000, 3000] m0 of
           (ss, q1, m1) \<Rightarrow>
             s0 = 0 \<and> ss = [0, 0, 0] \<and>
             fst (fifo_uint16_pop_n q1 200 2 m1) = [(0, 1000), (0, 2000)])) \<and>
   (case fifo_uint32_init (Some blank_fifo) 100 4 False src_mem of
      (s0, q0, m0) \<Rightarrow>
        (case fifo_uint32_push_all q0 [100000, 200000, 300000] m0 of
           (ss, q1, m1) \<Rightarrow>
             s0 = 0 \<and> ss = [0, 0, 0] \<and>
             fst (fifo_uint32_pop_n q1 200 2 m1) = [(0, 100000), (0, 200000)])) \<and>
   (case fifo_common_init (Some blank_fifo_common) 100 4 3 False src_mem of
      None \<Rightarrow> False
    | Some (s0, q0, m0) \<Rightarrow>
        (case fifo_common_push_all q0 300 3 3 m0 of
           (ss, q1, m1) \<Rightarrow>
             (case fifo_common_pop_n q1 200 3 2 m1 of
                (rs, q2, m2) \<Rightarrow>
                  s0 = 0 \<and> ss = [0, 0, 0] \<and> rs = [0, 0] \<and>
                  read_bytes m2 200 6 = [1, 2, 3, 4, 5, 6])))"
proof -
  have statuses: "replicate 3 (0::int) = [0, 0, 0]" "replicate 2 (0::int) = [0, 0]"
    by (simp_all add: numeral_eq_Suc)
  show ?thesis
    using fifo_order [of 100 4 3 2 200 "[10, 20, 30]" blank_fifo False src_mem
        "[1000, 2000, 3000]" "[100000, 200000, 300000]" 3 300 blank_fifo_common]
    by (simp add: fifo_common_init_def INT_MAX_def Let_def read_bytes_numeral write_bytes_apply
        statuses)
qed

section \<open>Full and empty buffers\<close>

text \<open>
  C5. A push on a buffer with \<^verbatim>\<open>free_size = 0\<close> returns the buffer-full status (-2 in
  the typed buffers, -3 in the common one) and changes neither the descriptor nor the
  memory. A pop on a buffer with \<^verbatim>\<open>free_size = max_size\<close> returns the buffer-empty status
  (-3) and changes neither. The pointer arguments are not null: the null checks come
  first in \<^verbatim>\<open>pop\<close> and in the common \<^verbatim>\<open>push\<close>.
\<close>

theorem full_empty_boundary:
  fixes f8 :: fifo_uint8_TD and f16 :: fifo_uint16_TD and f32 :: fifo_uint32_TD
    and g :: fifo_common_TD
  shows
  "(free_size f8 = 0 \<longrightarrow> fifo_uint8_push (Some f8) v8 mem = (- 2, Some f8, mem)) \<and>
   (free_size f16 = 0 \<longrightarrow> fifo_uint16_push (Some f16) v16 mem = (- 2, Some f16, mem)) \<and>
   (free_size f32 = 0 \<longrightarrow> fifo_uint32_push (Some f32) v32 mem = (- 2, Some f32, mem)) \<and>
   (free_size g = 0 \<and> p \<noteq> NULL \<longrightarrow> fifo_common_push (Some g) p mem = (- 3, Some g, mem)) \<and>
   (free_size f8 = max_size f8 \<and> p \<noteq> NULL \<longrightarrow>
      fifo_uint8_pop (Some f8) p mem = (- 3, Some f8, mem)) \<and>
   (free_size f16 = max_size f16 \<and> p \<noteq> NULL \<longrightarrow>
      fifo_uint16_pop (Some f16) p mem = (- 3, Some f16, mem)) \<and>
   (free_size f32 = max_size f32 \<and> p \<noteq> NULL \<longrightarrow>
      fifo_uint32_pop (Some f32) p mem = (- 3, Some f32, mem)) \<and>
   (free_size g = max_size g \<and> p \<noteq> NULL \<longrightarrow>
      fifo_common_pop (Some g) p mem = (- 3, Some g, mem))"
  by (simp add: fifo_uint8_push_def fifo_uint16_push_def fifo_uint32_push_def
      fifo_common_push_def fifo_uint8_pop_def fifo_uint16_pop_def fifo_uint32_pop_def
      fifo_common_pop_def)

theorem full_empty_boundary_witness:
  "fifo_uint8_push (Some full_fifo8) 9 zero_mem = (- 2, Some full_fifo8, zero_mem) \<and>
   fifo_uint16_push (Some full_fifo16) 9 zero_mem = (- 2, Some full_fifo16, zero_mem) \<and>
   fifo_uint32_push (Some full_fifo32) 9 zero_mem = (- 2, Some full_fifo32, zero_mem) \<and>
   fifo_common_push (Some full_fifo_common) 200 zero_mem =
     (- 3, Some full_fifo_common, zero_mem) \<and>
   fifo_uint8_pop (Some empty_fifo8) 200 zero_mem = (- 3, Some empty_fifo8, zero_mem) \<and>
   fifo_uint16_pop (Some empty_fifo16) 200 zero_mem = (- 3, Some empty_fifo16, zero_mem) \<and>
   fifo_uint32_pop (Some empty_fifo32) 200 zero_mem = (- 3, Some empty_fifo32, zero_mem) \<and>
   fifo_common_pop (Some empty_fifo_common) 200 zero_mem =
     (- 3, Some empty_fifo_common, zero_mem)"
  using full_empty_boundary
      [of full_fifo8 9 zero_mem full_fifo16 9 full_fifo32 9 full_fifo_common 200]
    full_empty_boundary
      [of empty_fifo8 9 zero_mem empty_fifo16 9 empty_fifo32 9 empty_fifo_common 200]
  by simp

section \<open>A byte buffer of capacity 4\<close>

text \<open>
  C6. A byte buffer of capacity 4 is initialised on the storage at address 100. Pushing
  1, 2, 3, 4 succeeds each time and a fifth push returns the buffer-full status -2 and
  changes nothing. A pop then yields 1 and leaves \<^verbatim>\<open>free_size = 1\<close>. Pushing 5 succeeds and
  writes slot 0, leaving the tail at slot 1. A bulk pop of 4 then yields 2, 3, 4, 5 in
  that order and leaves the buffer empty (\<^verbatim>\<open>free_size = max_size = 4\<close>). The descriptor
  before \<^verbatim>\<open>init\<close>, the clear flag and the memory are arbitrary. The bulk pop is defined:
  its result is \<open>Some\<close>.
\<close>

theorem byte_fifo_scenario:
  "(let (s0, q0, m0) = fifo_uint8_init (Some f0) 100 4 clear_flag mem;
        (s1, q1, m1) = fifo_uint8_push q0 1 m0;
        (s2, q2, m2) = fifo_uint8_push q1 2 m1;
        (s3, q3, m3) = fifo_uint8_push q2 3 m2;
        (s4, q4, m4) = fifo_uint8_push q3 4 m3;
        (s5, q5, m5) = fifo_uint8_push q4 5 m4;
        (s6, q6, m6) = fifo_uint8_pop q5 200 m5;
        (s7, q7, m7) = fifo_uint8_push q6 5 m6
    in [s0, s1, s2, s3, s4] = [0, 0, 0, 0, 0] \<and> s5 = - 2 \<and> (q5, m5) = (q4, m4) \<and>
       s6 = 0 \<and> m6 200 = 1 \<and> map_option free_size q6 = Some 1 \<and>
       s7 = 0 \<and> m7 100 = 5 \<and> map_option tail_ptr q7 = Some 101 \<and>
       (case fifo_uint8_pop_mul q7 300 4 m7 of
          None \<Rightarrow> False
        | Some (s8, q8, m8) \<Rightarrow>
            s8 = 0 \<and> read_bytes m8 300 4 = [2, 3, 4, 5] \<and>
            map_option free_size q8 = Some 4 \<and> map_option max_size q8 = Some 4))"
  by (simp add: fifo_uint8_init_def fifo_uint8_push_def fifo_uint8_pop_def
      fifo_uint8_pop_mul_def Let_def memcpy_apply memset_apply read_bytes_numeral)

section \<open>Contract of the bulk push\<close>

text \<open>
  C7. In every variant \<^verbatim>\<open>push_mul\<close> returns -1 for a null descriptor and -2 for a null
  source. With both present it returns -3 exactly when the count is 0 and -4 exactly when
  the count exceeds \<^verbatim>\<open>free_size\<close>. It is defined and returns 0 exactly when the count is
  positive and at most \<^verbatim>\<open>free_size\<close>, the tail is not past the limit and, in the common
  buffer with a nonzero \<^verbatim>\<open>entry_size\<close>, the product of the count and \<^verbatim>\<open>entry_size\<close> fits an
  \<^verbatim>\<open>int\<close>. When it returns 0, the first state of the statement-by-statement path has
  \<^verbatim>\<open>free_size\<close> lowered by exactly the count and the memory still as it was before the
  call: the decrement is one statement and precedes every copy. Every later state of the
  path has the same \<^verbatim>\<open>free_size\<close>, the last state of the path is what the function
  returns, and the subtraction does not wrap around.
\<close>

theorem push_mul_contract:
  fixes f8 :: fifo_uint8_TD and f16 :: fifo_uint16_TD and f32 :: fifo_uint32_TD
    and g :: fifo_common_TD
  shows
  "(map_option fst (fifo_uint8_push_mul None src m mem) = Some (- 1) \<and>
    (src = NULL \<longrightarrow> map_option fst (fifo_uint8_push_mul (Some f8) src m mem) = Some (- 2)) \<and>
    (src \<noteq> NULL \<longrightarrow>
       ((map_option fst (fifo_uint8_push_mul (Some f8) src m mem) = Some (- 3)) = (m = 0)) \<and>
       ((map_option fst (fifo_uint8_push_mul (Some f8) src m mem) = Some (- 4)) = (free_size f8 < m)) \<and>
       ((map_option fst (fifo_uint8_push_mul (Some f8) src m mem) = Some 0) =
          (m \<noteq> 0 \<and> m \<le> free_size f8 \<and> tail_ptr f8 \<le> limit_ptr f8))) \<and>
    (map_option fst (fifo_uint8_push_mul (Some f8) src m mem) = Some 0 \<longrightarrow>
       hd (fifo_uint8_push_mul_steps f8 src m mem) = (f8\<lparr>free_size := free_size f8 - m\<rparr>, mem) \<and>
       list_all (\<lambda>s. free_size (fst s) = free_size f8 - m) (fifo_uint8_push_mul_steps f8 src m mem) \<and>
       fifo_uint8_push_mul (Some f8) src m mem =
         Some (0, Some (fst (last (fifo_uint8_push_mul_steps f8 src m mem))),
               snd (last (fifo_uint8_push_mul_steps f8 src m mem))) \<and>
       map_option (\<lambda>r. map_option free_size (fst (snd r)))
         (fifo_uint8_push_mul (Some f8) src m mem) = Some (Some (free_size f8 - m)) \<and>
       unat (free_size f8 - m) + unat m = unat (free_size f8))) \<and>
   (map_option fst (fifo_uint16_push_mul None src m mem) = Some (- 1) \<and>
    (src = NULL \<longrightarrow> map_option fst (fifo_uint16_push_mul (Some f16) src m mem) = Some (- 2)) \<and>
    (src \<noteq> NULL \<longrightarrow>
       ((map_option fst (fifo_uint16_push_mul (Some f16) src m mem) = Some (- 3)) = (m = 0)) \<and>
       ((map_option fst (fifo_uint16_push_mul (Some f16) src m mem) = Some (- 4)) = (free_size f16 < m)) \<and>
       ((map_option fst (fifo_uint16_push_mul (Some f16) src m mem) = Some 0) =
          (m \<noteq> 0 \<and> m \<le> free_size f16 \<and> tail_ptr f16 \<le> limit_ptr f16))) \<and>
    (map_option fst (fifo_uint16_push_mul (Some f16) src m mem) = Some 0 \<longrightarrow>
       hd (fifo_uint16_push_mul_steps f16 src m mem) = (f16\<lparr>free_size := free_size f16 - m\<rparr>, mem) \<and>
       list_all (\<lambda>s. free_size (fst s) = free_size f16 - m) (fifo_uint16_push_mul_steps f16 src m mem) \<and>
       fifo_uint16_push_mul (Some f16) src m mem =
         Some (0, Some (fst (last (fifo_uint16_push_mul_steps f16 src m mem))),
               snd (last (fifo_uint16_push_mul_steps f16 src m mem))) \<and>
       map_option (\<lambda>r. map_option free_size (fst (snd r)))
         (fifo_uint16_push_mul (Some f16) src m mem) = Some (Some (free_size f16 - m)) \<and>
       unat (free_size f16 - m) + unat m = unat (free_size f16))) \<and>
   (map_option fst (fifo_uint32_push_mul None src m mem) = Some (- 1) \<and>
    (src = NULL \<longrightarrow> map_option fst (fifo_uint32_push_mul (Some f32) src m mem) = Some (- 2)) \<and>
    (src \<noteq> NULL \<longrightarrow>
       ((map_option fst (fifo_uint32_push_mul (Some f32) src m mem) = Some (- 3)) = (m = 0)) \<and>
       ((map_option fst (fifo_uint32_push_mul (Some f32) src m mem) = Some (- 4)) = (free_size f32 < m)) \<and>
       ((map_option fst (fifo_uint32_push_mul (Some f32) src m mem) = Some 0) =
          (m \<noteq> 0 \<and> m \<le> free_size f32 \<and> tail_ptr f32 \<le> limit_ptr f32))) \<and>
    (map_option fst (fifo_uint32_push_mul (Some f32) src m mem) = Some 0 \<longrightarrow>
       hd (fifo_uint32_push_mul_steps f32 src m mem) = (f32\<lparr>free_size := free_size f32 - m\<rparr>, mem) \<and>
       list_all (\<lambda>s. free_size (fst s) = free_size f32 - m) (fifo_uint32_push_mul_steps f32 src m mem) \<and>
       fifo_uint32_push_mul (Some f32) src m mem =
         Some (0, Some (fst (last (fifo_uint32_push_mul_steps f32 src m mem))),
               snd (last (fifo_uint32_push_mul_steps f32 src m mem))) \<and>
       map_option (\<lambda>r. map_option free_size (fst (snd r)))
         (fifo_uint32_push_mul (Some f32) src m mem) = Some (Some (free_size f32 - m)) \<and>
       unat (free_size f32 - m) + unat m = unat (free_size f32))) \<and>
   (map_option fst (fifo_common_push_mul None src m mem) = Some (- 1) \<and>
    (src = NULL \<longrightarrow> map_option fst (fifo_common_push_mul (Some g) src m mem) = Some (- 2)) \<and>
    (src \<noteq> NULL \<longrightarrow>
       ((map_option fst (fifo_common_push_mul (Some g) src m mem) = Some (- 3)) = (m = 0)) \<and>
       ((map_option fst (fifo_common_push_mul (Some g) src m mem) = Some (- 4)) = (free_size g < m)) \<and>
       (entry_size g \<noteq> 0 \<longrightarrow>
          ((map_option fst (fifo_common_push_mul (Some g) src m mem) = Some 0) =
             (m \<noteq> 0 \<and> m \<le> free_size g \<and> tail_ptr g \<le> limit_ptr g \<and>
              unat m * unat (entry_size g) \<le> INT_MAX)))) \<and>
    (map_option fst (fifo_common_push_mul (Some g) src m mem) = Some 0 \<longrightarrow>
       hd (fifo_common_push_mul_steps g src m mem) = (g\<lparr>free_size := free_size g - m\<rparr>, mem) \<and>
       list_all (\<lambda>s. free_size (fst s) = free_size g - m) (fifo_common_push_mul_steps g src m mem) \<and>
       fifo_common_push_mul (Some g) src m mem =
         Some (0, Some (fst (last (fifo_common_push_mul_steps g src m mem))),
               snd (last (fifo_common_push_mul_steps g src m mem))) \<and>
       map_option (\<lambda>r. map_option free_size (fst (snd r)))
         (fifo_common_push_mul (Some g) src m mem) = Some (Some (free_size g - m)) \<and>
       unat (free_size g - m) + unat m = unat (free_size g)))"
    (is "?uint8 \<and> ?uint16 \<and> ?uint32 \<and> ?common")
proof -
  have int_max: "(INT_MAX < n) = (\<not> n \<le> INT_MAX)" for n
    by (simp add: not_le)
  have status_uint8:
    "map_option fst (fifo_uint8_push_mul None src m mem) = Some (- 1) \<and>
    (src = NULL \<longrightarrow> map_option fst (fifo_uint8_push_mul (Some f8) src m mem) = Some (- 2)) \<and>
    (src \<noteq> NULL \<longrightarrow>
       ((map_option fst (fifo_uint8_push_mul (Some f8) src m mem) = Some (- 3)) = (m = 0)) \<and>
       ((map_option fst (fifo_uint8_push_mul (Some f8) src m mem) = Some (- 4)) = (free_size f8 < m)) \<and>
       ((map_option fst (fifo_uint8_push_mul (Some f8) src m mem) = Some 0) =
          (m \<noteq> 0 \<and> m \<le> free_size f8 \<and> tail_ptr f8 \<le> limit_ptr f8)))"
    by (auto simp: uint8_push_mul_status word_gt_0 split: if_splits)
  have success_uint8:
    "map_option fst (fifo_uint8_push_mul (Some f8) src m mem) = Some 0 \<longrightarrow>
       hd (fifo_uint8_push_mul_steps f8 src m mem) = (f8\<lparr>free_size := free_size f8 - m\<rparr>, mem) \<and>
       list_all (\<lambda>s. free_size (fst s) = free_size f8 - m) (fifo_uint8_push_mul_steps f8 src m mem) \<and>
       fifo_uint8_push_mul (Some f8) src m mem =
         Some (0, Some (fst (last (fifo_uint8_push_mul_steps f8 src m mem))),
               snd (last (fifo_uint8_push_mul_steps f8 src m mem))) \<and>
       map_option (\<lambda>r. map_option free_size (fst (snd r)))
         (fifo_uint8_push_mul (Some f8) src m mem) = Some (Some (free_size f8 - m)) \<and>
       unat (free_size f8 - m) + unat m = unat (free_size f8)"
    by ((intro conjI impI uint8_push_mul_steps_first uint8_push_mul_steps_free
        uint8_push_mul_steps uint8_push_mul_free uint8_push_mul_no_wrap); assumption)
  have status_uint16:
    "map_option fst (fifo_uint16_push_mul None src m mem) = Some (- 1) \<and>
    (src = NULL \<longrightarrow> map_option fst (fifo_uint16_push_mul (Some f16) src m mem) = Some (- 2)) \<and>
    (src \<noteq> NULL \<longrightarrow>
       ((map_option fst (fifo_uint16_push_mul (Some f16) src m mem) = Some (- 3)) = (m = 0)) \<and>
       ((map_option fst (fifo_uint16_push_mul (Some f16) src m mem) = Some (- 4)) = (free_size f16 < m)) \<and>
       ((map_option fst (fifo_uint16_push_mul (Some f16) src m mem) = Some 0) =
          (m \<noteq> 0 \<and> m \<le> free_size f16 \<and> tail_ptr f16 \<le> limit_ptr f16)))"
    by (auto simp: uint16_push_mul_status word_gt_0 split: if_splits)
  have success_uint16:
    "map_option fst (fifo_uint16_push_mul (Some f16) src m mem) = Some 0 \<longrightarrow>
       hd (fifo_uint16_push_mul_steps f16 src m mem) = (f16\<lparr>free_size := free_size f16 - m\<rparr>, mem) \<and>
       list_all (\<lambda>s. free_size (fst s) = free_size f16 - m) (fifo_uint16_push_mul_steps f16 src m mem) \<and>
       fifo_uint16_push_mul (Some f16) src m mem =
         Some (0, Some (fst (last (fifo_uint16_push_mul_steps f16 src m mem))),
               snd (last (fifo_uint16_push_mul_steps f16 src m mem))) \<and>
       map_option (\<lambda>r. map_option free_size (fst (snd r)))
         (fifo_uint16_push_mul (Some f16) src m mem) = Some (Some (free_size f16 - m)) \<and>
       unat (free_size f16 - m) + unat m = unat (free_size f16)"
    by ((intro conjI impI uint16_push_mul_steps_first uint16_push_mul_steps_free
        uint16_push_mul_steps uint16_push_mul_free uint16_push_mul_no_wrap); assumption)
  have status_uint32:
    "map_option fst (fifo_uint32_push_mul None src m mem) = Some (- 1) \<and>
    (src = NULL \<longrightarrow> map_option fst (fifo_uint32_push_mul (Some f32) src m mem) = Some (- 2)) \<and>
    (src \<noteq> NULL \<longrightarrow>
       ((map_option fst (fifo_uint32_push_mul (Some f32) src m mem) = Some (- 3)) = (m = 0)) \<and>
       ((map_option fst (fifo_uint32_push_mul (Some f32) src m mem) = Some (- 4)) = (free_size f32 < m)) \<and>
       ((map_option fst (fifo_uint32_push_mul (Some f32) src m mem) = Some 0) =
          (m \<noteq> 0 \<and> m \<le> free_size f32 \<and> tail_ptr f32 \<le> limit_ptr f32)))"
    by (auto simp: uint32_push_mul_status word_gt_0 split: if_splits)
  have success_uint32:
    "map_option fst (fifo_uint32_push_mul (Some f32) src m mem) = Some 0 \<longrightarrow>
       hd (fifo_uint32_push_mul_steps f32 src m mem) = (f32\<lparr>free_size := free_size f32 - m\<rparr>, mem) \<and>
       list_all (\<lambda>s. free_size (fst s) = free_size f32 - m) (fifo_uint32_push_mul_steps f32 src m mem) \<and>
       fifo_uint32_push_mul (Some f32) src m mem =
         Some (0, Some (fst (last (fifo_uint32_push_mul_steps f32 src m mem))),
               snd (last (fifo_uint32_push_mul_steps f32 src m mem))) \<and>
       map_option (\<lambda>r. map_option free_size (fst (snd r)))
         (fifo_uint32_push_mul (Some f32) src m mem) = Some (Some (free_size f32 - m)) \<and>
       unat (free_size f32 - m) + unat m = unat (free_size f32)"
    by ((intro conjI impI uint32_push_mul_steps_first uint32_push_mul_steps_free
        uint32_push_mul_steps uint32_push_mul_free uint32_push_mul_no_wrap); assumption)
  have status_common:
    "map_option fst (fifo_common_push_mul None src m mem) = Some (- 1) \<and>
    (src = NULL \<longrightarrow> map_option fst (fifo_common_push_mul (Some g) src m mem) = Some (- 2)) \<and>
    (src \<noteq> NULL \<longrightarrow>
       ((map_option fst (fifo_common_push_mul (Some g) src m mem) = Some (- 3)) = (m = 0)) \<and>
       ((map_option fst (fifo_common_push_mul (Some g) src m mem) = Some (- 4)) = (free_size g < m)) \<and>
       (entry_size g \<noteq> 0 \<longrightarrow>
          ((map_option fst (fifo_common_push_mul (Some g) src m mem) = Some 0) =
             (m \<noteq> 0 \<and> m \<le> free_size g \<and> tail_ptr g \<le> limit_ptr g \<and>
              unat m * unat (entry_size g) \<le> INT_MAX))))"
    by (auto simp: common_push_mul_status word_gt_0 int_max split: if_splits)
  have success_common:
    "map_option fst (fifo_common_push_mul (Some g) src m mem) = Some 0 \<longrightarrow>
       hd (fifo_common_push_mul_steps g src m mem) = (g\<lparr>free_size := free_size g - m\<rparr>, mem) \<and>
       list_all (\<lambda>s. free_size (fst s) = free_size g - m) (fifo_common_push_mul_steps g src m mem) \<and>
       fifo_common_push_mul (Some g) src m mem =
         Some (0, Some (fst (last (fifo_common_push_mul_steps g src m mem))),
               snd (last (fifo_common_push_mul_steps g src m mem))) \<and>
       map_option (\<lambda>r. map_option free_size (fst (snd r)))
         (fifo_common_push_mul (Some g) src m mem) = Some (Some (free_size g - m)) \<and>
       unat (free_size g - m) + unat m = unat (free_size g)"
    by ((intro conjI impI common_push_mul_steps_first common_push_mul_steps_free
        common_push_mul_steps common_push_mul_free common_push_mul_no_wrap); assumption)
  have all_uint8: "?uint8"
    using status_uint8 success_uint8 by (elim conjE) (intro conjI; assumption)
  have all_uint16: "?uint16"
    using status_uint16 success_uint16 by (elim conjE) (intro conjI; assumption)
  have all_uint32: "?uint32"
    using status_uint32 success_uint32 by (elim conjE) (intro conjI; assumption)
  have all_common: "?common"
    using status_common success_common by (elim conjE) (intro conjI; assumption)
  show ?thesis
    by (rule conjI [OF all_uint8 conjI [OF all_uint16 conjI [OF all_uint32 all_common]]])
qed

theorem push_mul_contract_witness:
  "map_option fst (fifo_uint8_push_mul (Some ex_fifo8) NULL 2 zero_mem) = Some (- 2) \<and>
   map_option fst (fifo_uint8_push_mul (Some ex_fifo8) 300 0 zero_mem) = Some (- 3) \<and>
   map_option fst (fifo_uint8_push_mul (Some ex_fifo8) 300 3 zero_mem) = Some (- 4) \<and>
   map_option fst (fifo_uint8_push_mul (Some ex_fifo8) 300 2 zero_mem) = Some 0 \<and>
   hd (fifo_uint8_push_mul_steps ex_fifo8 300 2 zero_mem) = (ex_fifo8\<lparr>free_size := 0\<rparr>, zero_mem) \<and>
   list_all (\<lambda>s. free_size (fst s) = 0) (fifo_uint8_push_mul_steps ex_fifo8 300 2 zero_mem) \<and>
   fifo_uint8_push_mul (Some ex_fifo8) 300 2 zero_mem =
     Some (0, Some (fst (last (fifo_uint8_push_mul_steps ex_fifo8 300 2 zero_mem))),
           snd (last (fifo_uint8_push_mul_steps ex_fifo8 300 2 zero_mem))) \<and>
   map_option (\<lambda>r. map_option free_size (fst (snd r)))
     (fifo_uint8_push_mul (Some ex_fifo8) 300 2 zero_mem) = Some (Some 0) \<and>
   map_option fst (fifo_uint16_push_mul (Some ex_fifo16) NULL 2 zero_mem) = Some (- 2) \<and>
   map_option fst (fifo_uint16_push_mul (Some ex_fifo16) 300 0 zero_mem) = Some (- 3) \<and>
   map_option fst (fifo_uint16_push_mul (Some ex_fifo16) 300 3 zero_mem) = Some (- 4) \<and>
   map_option fst (fifo_uint16_push_mul (Some ex_fifo16) 300 2 zero_mem) = Some 0 \<and>
   hd (fifo_uint16_push_mul_steps ex_fifo16 300 2 zero_mem) = (ex_fifo16\<lparr>free_size := 0\<rparr>, zero_mem) \<and>
   list_all (\<lambda>s. free_size (fst s) = 0) (fifo_uint16_push_mul_steps ex_fifo16 300 2 zero_mem) \<and>
   fifo_uint16_push_mul (Some ex_fifo16) 300 2 zero_mem =
     Some (0, Some (fst (last (fifo_uint16_push_mul_steps ex_fifo16 300 2 zero_mem))),
           snd (last (fifo_uint16_push_mul_steps ex_fifo16 300 2 zero_mem))) \<and>
   map_option (\<lambda>r. map_option free_size (fst (snd r)))
     (fifo_uint16_push_mul (Some ex_fifo16) 300 2 zero_mem) = Some (Some 0) \<and>
   map_option fst (fifo_uint32_push_mul (Some ex_fifo32) NULL 2 zero_mem) = Some (- 2) \<and>
   map_option fst (fifo_uint32_push_mul (Some ex_fifo32) 300 0 zero_mem) = Some (- 3) \<and>
   map_option fst (fifo_uint32_push_mul (Some ex_fifo32) 300 3 zero_mem) = Some (- 4) \<and>
   map_option fst (fifo_uint32_push_mul (Some ex_fifo32) 300 2 zero_mem) = Some 0 \<and>
   hd (fifo_uint32_push_mul_steps ex_fifo32 300 2 zero_mem) = (ex_fifo32\<lparr>free_size := 0\<rparr>, zero_mem) \<and>
   list_all (\<lambda>s. free_size (fst s) = 0) (fifo_uint32_push_mul_steps ex_fifo32 300 2 zero_mem) \<and>
   fifo_uint32_push_mul (Some ex_fifo32) 300 2 zero_mem =
     Some (0, Some (fst (last (fifo_uint32_push_mul_steps ex_fifo32 300 2 zero_mem))),
           snd (last (fifo_uint32_push_mul_steps ex_fifo32 300 2 zero_mem))) \<and>
   map_option (\<lambda>r. map_option free_size (fst (snd r)))
     (fifo_uint32_push_mul (Some ex_fifo32) 300 2 zero_mem) = Some (Some 0) \<and>
   map_option fst (fifo_common_push_mul (Some ex_fifo_common) NULL 2 zero_mem) = Some (- 2) \<and>
   map_option fst (fifo_common_push_mul (Some ex_fifo_common) 300 0 zero_mem) = Some (- 3) \<and>
   map_option fst (fifo_common_push_mul (Some ex_fifo_common) 300 3 zero_mem) = Some (- 4) \<and>
   map_option fst (fifo_common_push_mul (Some ex_fifo_common) 300 2 zero_mem) = Some 0 \<and>
   hd (fifo_common_push_mul_steps ex_fifo_common 300 2 zero_mem) = (ex_fifo_common\<lparr>free_size := 0\<rparr>, zero_mem) \<and>
   list_all (\<lambda>s. free_size (fst s) = 0) (fifo_common_push_mul_steps ex_fifo_common 300 2 zero_mem) \<and>
   fifo_common_push_mul (Some ex_fifo_common) 300 2 zero_mem =
     Some (0, Some (fst (last (fifo_common_push_mul_steps ex_fifo_common 300 2 zero_mem))),
           snd (last (fifo_common_push_mul_steps ex_fifo_common 300 2 zero_mem))) \<and>
   map_option (\<lambda>r. map_option free_size (fst (snd r)))
     (fifo_common_push_mul (Some ex_fifo_common) 300 2 zero_mem) = Some (Some 0)"
  using push_mul_contract [of NULL 2 zero_mem ex_fifo8 ex_fifo16 ex_fifo32 ex_fifo_common]
    push_mul_contract [of 300 0 zero_mem ex_fifo8 ex_fifo16 ex_fifo32 ex_fifo_common]
    push_mul_contract [of 300 3 zero_mem ex_fifo8 ex_fifo16 ex_fifo32 ex_fifo_common]
    push_mul_contract [of 300 2 zero_mem ex_fifo8 ex_fifo16 ex_fifo32 ex_fifo_common]
  by (simp add: INT_MAX_def)

section \<open>Clearing a buffer\<close>

text \<open>
  In every variant \<^verbatim>\<open>clear\<close> returns -1 for a null descriptor and otherwise returns 0 and
  resets head and tail to the storage start and \<^verbatim>\<open>free_size\<close> to \<^verbatim>\<open>max_size\<close>. The common
  buffer's \<^verbatim>\<open>clear\<close> multiplies \<^verbatim>\<open>max_size\<close> by \<^verbatim>\<open>entry_size\<close> in \<^verbatim>\<open>int\<close> and is defined when
  the product fits.
\<close>

lemma clear_descriptor:
  "fst (fifo_uint8_clear None mem) = - 1"
  "fst (fifo_uint16_clear None mem) = - 1"
  "fst (fifo_uint32_clear None mem) = - 1"
  "fifo_common_clear None mem = Some (- 1, None, mem)"
  "fst (fifo_uint8_clear (Some f) mem) = 0"
  "fst (snd (fifo_uint8_clear (Some f) mem)) =
     Some (f\<lparr>head_ptr := buffer f, tail_ptr := buffer f, free_size := max_size f\<rparr>)"
  "fst (fifo_uint16_clear (Some f) mem) = 0"
  "fst (snd (fifo_uint16_clear (Some f) mem)) =
     Some (f\<lparr>head_ptr := buffer f, tail_ptr := buffer f, free_size := max_size f\<rparr>)"
  "fst (fifo_uint32_clear (Some f) mem) = 0"
  "fst (snd (fifo_uint32_clear (Some f) mem)) =
     Some (f\<lparr>head_ptr := buffer f, tail_ptr := buffer f, free_size := max_size f\<rparr>)"
  "unat (max_size g) * unat (entry_size g) \<le> INT_MAX \<Longrightarrow>
     map_option fst (fifo_common_clear (Some g) mem) = Some 0"
  "unat (max_size g) * unat (entry_size g) \<le> INT_MAX \<Longrightarrow>
     map_option (\<lambda>r. fst (snd r)) (fifo_common_clear (Some g) mem) =
       Some (Some (g\<lparr>head_ptr := buffer g, tail_ptr := buffer g, free_size := max_size g\<rparr>))"
  by (simp_all add: fifo_uint8_clear_def fifo_uint16_clear_def fifo_uint32_clear_def
      fifo_common_clear_def Let_def not_less)

text \<open>
  The byte buffer and the common buffer pass the storage size in bytes: after \<^verbatim>\<open>clear\<close>
  every byte of the storage is zero (in the common buffer, when the size fits an \<^verbatim>\<open>int\<close>).
\<close>

lemma uint8_clear_zero_fills:
  "fifo_uint8_clear (Some f) mem =
     (0, Some (f\<lparr>head_ptr := buffer f, tail_ptr := buffer f, free_size := max_size f\<rparr>),
      memset mem (buffer f) 0 (unat (max_size f))) \<and>
   read_bytes (snd (snd (fifo_uint8_clear (Some f) mem))) (buffer f) (unat (max_size f)) =
     replicate (unat (max_size f)) 0"
  by (simp add: fifo_uint8_clear_def Let_def read_bytes_memset)

lemma common_clear_zero_fills:
  assumes "unat (max_size g) * unat (entry_size g) \<le> INT_MAX"
  shows "fifo_common_clear (Some g) mem =
     Some (0, Some (g\<lparr>head_ptr := buffer g, tail_ptr := buffer g, free_size := max_size g\<rparr>),
           memset mem (buffer g) 0 (unat (max_size g) * unat (entry_size g)))"
    and "read_bytes (memset mem (buffer g) 0 (unat (max_size g) * unat (entry_size g)))
       (buffer g) (unat (max_size g) * unat (entry_size g)) =
     replicate (unat (max_size g) * unat (entry_size g)) 0"
  using assms by (simp_all add: fifo_common_clear_def Let_def read_bytes_memset not_less)

text \<open>
  C8. \<^verbatim>\<open>clear\<close> on an initialised buffer should succeed, reset head, tail and
  \<^verbatim>\<open>free_size\<close>, and zero all \<open>capacity * entry_size\<close> bytes of the storage.

  The \<^verbatim>\<open>uint16_t\<close> buffer passes \<^verbatim>\<open>max_size\<close>, an element count, to \<^verbatim>\<open>memset\<close> as the byte
  count. A buffer of capacity 2 is initialised (without clearing) on storage whose four
  bytes are all 255; \<^verbatim>\<open>clear\<close> returns 0 and zeroes the first two bytes only.
\<close>

theorem uint16_clear_leaves_bytes:
  "(let (s0, q0, m0) = fifo_uint16_init (Some blank_fifo) 100 2 False ones_mem;
        (s1, q1, m1) = fifo_uint16_clear q0 m0
    in s0 = 0 \<and> s1 = 0 \<and>
       map_option limit_ptr q1 = Some 104 \<and>
       read_bytes m1 100 4 = [0, 0, 255, 255])"
  by (simp add: fifo_uint16_init_def fifo_uint16_clear_def Let_def memset_apply
      read_bytes_numeral)

section \<open>Initialising a buffer\<close>

text \<open>
  In every variant \<^verbatim>\<open>init\<close> returns -1 for a null descriptor, -2 for a null storage
  pointer, -3 for a capacity of zero and (common buffer) -4 for an entry size of zero, and
  leaves the descriptor and the memory alone. Otherwise it returns 0 and sets head and
  tail to the storage start, \<^verbatim>\<open>free_size\<close> and \<^verbatim>\<open>max_size\<close> to the capacity and the limit to
  the storage start plus the capacity times the entry size. The common buffer's \<^verbatim>\<open>init\<close>
  computes that product in \<^verbatim>\<open>int\<close> and is defined when it fits.
\<close>

lemma init_statuses:
  "fifo_uint8_init None buf sz clear_flag mem = (- 1, None, mem)"
  "fifo_uint16_init None buf sz clear_flag mem = (- 1, None, mem)"
  "fifo_uint32_init None buf sz clear_flag mem = (- 1, None, mem)"
  "fifo_common_init None buf sz esz clear_flag mem = Some (- 1, None, mem)"
  "fifo_uint8_init (Some f) NULL sz clear_flag mem = (- 2, Some f, mem)"
  "fifo_uint16_init (Some f) NULL sz clear_flag mem = (- 2, Some f, mem)"
  "fifo_uint32_init (Some f) NULL sz clear_flag mem = (- 2, Some f, mem)"
  "fifo_common_init (Some g) NULL sz esz clear_flag mem = Some (- 2, Some g, mem)"
  "buf \<noteq> NULL \<Longrightarrow> fifo_uint8_init (Some f) buf 0 clear_flag mem = (- 3, Some f, mem)"
  "buf \<noteq> NULL \<Longrightarrow> fifo_uint16_init (Some f) buf 0 clear_flag mem = (- 3, Some f, mem)"
  "buf \<noteq> NULL \<Longrightarrow> fifo_uint32_init (Some f) buf 0 clear_flag mem = (- 3, Some f, mem)"
  "buf \<noteq> NULL \<Longrightarrow> fifo_common_init (Some g) buf 0 esz clear_flag mem = Some (- 3, Some g, mem)"
  "buf \<noteq> NULL \<Longrightarrow> sz \<noteq> 0 \<Longrightarrow>
     fifo_common_init (Some g) buf sz 0 clear_flag mem = Some (- 4, Some g, mem)"
  by (simp_all add: fifo_uint8_init_def fifo_uint16_init_def fifo_uint32_init_def
      fifo_common_init_def)

lemma init_descriptor:
  assumes "buf \<noteq> NULL" and "sz \<noteq> 0"
  shows "fst (fifo_uint8_init (Some f) buf sz clear_flag mem) = 0"
    and "fst (snd (fifo_uint8_init (Some f) buf sz clear_flag mem)) =
      Some (f\<lparr>buffer := buf, head_ptr := buf, tail_ptr := buf, limit_ptr := buf + unat sz * 1,
               max_size := sz, free_size := sz\<rparr>)"
    and "fst (fifo_uint16_init (Some f) buf sz clear_flag mem) = 0"
    and "fst (snd (fifo_uint16_init (Some f) buf sz clear_flag mem)) =
      Some (f\<lparr>buffer := buf, head_ptr := buf, tail_ptr := buf, limit_ptr := buf + unat sz * 2,
               max_size := sz, free_size := sz\<rparr>)"
    and "fst (fifo_uint32_init (Some f) buf sz clear_flag mem) = 0"
    and "fst (snd (fifo_uint32_init (Some f) buf sz clear_flag mem)) =
      Some (f\<lparr>buffer := buf, head_ptr := buf, tail_ptr := buf, limit_ptr := buf + unat sz * 4,
               max_size := sz, free_size := sz\<rparr>)"
    and "esz \<noteq> 0 \<Longrightarrow> unat esz * unat sz \<le> INT_MAX \<Longrightarrow>
      map_option fst (fifo_common_init (Some g) buf sz esz clear_flag mem) = Some 0"
    and "esz \<noteq> 0 \<Longrightarrow> unat esz * unat sz \<le> INT_MAX \<Longrightarrow>
      map_option (\<lambda>r. fst (snd r)) (fifo_common_init (Some g) buf sz esz clear_flag mem) =
        Some (Some (g\<lparr>buffer := buf, head_ptr := buf, tail_ptr := buf,
                      limit_ptr := buf + unat sz * unat esz, entry_size := esz,
                      max_size := sz, free_size := sz\<rparr>))"
  using assms
  by (simp_all add: fifo_uint8_init_def fifo_uint16_init_def fifo_uint32_init_def
      fifo_common_init_def Let_def mult.commute not_less)

text \<open>
  The byte buffer and the common buffer zero the whole storage when the clear flag is
  set, and leave the memory alone when it is not (in the common buffer, when the storage
  size fits an \<^verbatim>\<open>int\<close>).
\<close>

lemma uint8_init_zero_fills:
  assumes "buf \<noteq> NULL" and "sz \<noteq> 0"
  shows "fifo_uint8_init (Some f) buf sz clear_flag mem =
     (0, Some (f\<lparr>buffer := buf, head_ptr := buf, tail_ptr := buf, limit_ptr := buf + unat sz,
                  max_size := sz, free_size := sz\<rparr>),
      if clear_flag then memset mem buf 0 (unat sz) else mem)"
    and "read_bytes (snd (snd (fifo_uint8_init (Some f) buf sz True mem))) buf (unat sz) =
     replicate (unat sz) 0"
  using assms by (simp_all add: fifo_uint8_init_def Let_def read_bytes_memset)

lemma common_init_zero_fills:
  assumes "buf \<noteq> NULL" and "sz \<noteq> 0" and "esz \<noteq> 0" and "unat esz * unat sz \<le> INT_MAX"
  shows "fifo_common_init (Some g) buf sz esz clear_flag mem =
     Some (0, Some (g\<lparr>buffer := buf, head_ptr := buf, tail_ptr := buf,
                       limit_ptr := buf + unat esz * unat sz, entry_size := esz,
                       max_size := sz, free_size := sz\<rparr>),
           if clear_flag then memset mem buf 0 (unat sz * unat esz) else mem)"
    and "read_bytes (memset mem buf 0 (unat sz * unat esz)) buf (unat sz * unat esz) =
       replicate (unat sz * unat esz) 0"
  using assms by (simp_all add: fifo_common_init_def Let_def read_bytes_memset not_less)

text \<open>
  C9. \<^verbatim>\<open>init\<close> should reject a null descriptor, a null storage pointer, a zero capacity
  and (common buffer) a zero entry size, each with its own status, and otherwise set the
  descriptor and zero the storage exactly when the clear flag is set.

  The \<^verbatim>\<open>uint16_t\<close> buffer passes \<^verbatim>\<open>size\<close>, an element count, to \<^verbatim>\<open>memset\<close> as the byte count.
  Initialising a buffer of capacity 2 with the clear flag set, on storage whose four
  bytes are all 255, returns 0, sets the limit four bytes past the start and zeroes the
  first two bytes only.
\<close>

theorem uint16_init_clear_leaves_bytes:
  "(let (s0, q0, m0) = fifo_uint16_init (Some blank_fifo) 100 2 True ones_mem
    in s0 = 0 \<and>
       map_option limit_ptr q0 = Some 104 \<and>
       read_bytes m0 100 4 = [0, 0, 255, 255])"
  by (simp add: fifo_uint16_init_def Let_def memset_apply read_bytes_numeral)

section \<open>Failed bulk operations change nothing\<close>

text \<open>
  C10. Whenever \<^verbatim>\<open>push_mul\<close> or \<^verbatim>\<open>pop_mul\<close> of any variant returns a nonzero status, the
  descriptor (head, tail, \<^verbatim>\<open>free_size\<close> and every other field) and the whole memory,
  the storage included, are as before the call: every check comes before the first update.
  A call whose checks fail is always defined (lemmas \<open>uint8_push_mul_status\<close> and the seven
  like it): only a call that has passed all four checks can be undefined.
\<close>

theorem bulk_error_leaves_state_unchanged:
  "(\<forall>r. fifo_uint8_push_mul fifo8 p m mem = Some r \<and> fst r \<noteq> 0 \<longrightarrow>
      snd r = (fifo8, mem)) \<and>
   (\<forall>r. fifo_uint16_push_mul fifo16 p m mem = Some r \<and> fst r \<noteq> 0 \<longrightarrow>
      snd r = (fifo16, mem)) \<and>
   (\<forall>r. fifo_uint32_push_mul fifo32 p m mem = Some r \<and> fst r \<noteq> 0 \<longrightarrow>
      snd r = (fifo32, mem)) \<and>
   (\<forall>r. fifo_common_push_mul cfifo p m mem = Some r \<and> fst r \<noteq> 0 \<longrightarrow>
      snd r = (cfifo, mem)) \<and>
   (\<forall>r. fifo_uint8_pop_mul fifo8 p m mem = Some r \<and> fst r \<noteq> 0 \<longrightarrow>
      snd r = (fifo8, mem)) \<and>
   (\<forall>r. fifo_uint16_pop_mul fifo16 p m mem = Some r \<and> fst r \<noteq> 0 \<longrightarrow>
      snd r = (fifo16, mem)) \<and>
   (\<forall>r. fifo_uint32_pop_mul fifo32 p m mem = Some r \<and> fst r \<noteq> 0 \<longrightarrow>
      snd r = (fifo32, mem)) \<and>
   (\<forall>r. fifo_common_pop_mul cfifo p m mem = Some r \<and> fst r \<noteq> 0 \<longrightarrow>
      snd r = (cfifo, mem))"
proof (intro conjI allI impI)
  fix r
  assume "fifo_uint8_push_mul fifo8 p m mem = Some r \<and> fst r \<noteq> 0"
  then show "snd r = (fifo8, mem)"
    by (elim conjE) (rule uint8_push_mul_error)
next
  fix r
  assume "fifo_uint16_push_mul fifo16 p m mem = Some r \<and> fst r \<noteq> 0"
  then show "snd r = (fifo16, mem)"
    by (elim conjE) (rule uint16_push_mul_error)
next
  fix r
  assume "fifo_uint32_push_mul fifo32 p m mem = Some r \<and> fst r \<noteq> 0"
  then show "snd r = (fifo32, mem)"
    by (elim conjE) (rule uint32_push_mul_error)
next
  fix r
  assume "fifo_common_push_mul cfifo p m mem = Some r \<and> fst r \<noteq> 0"
  then show "snd r = (cfifo, mem)"
    by (elim conjE) (rule common_push_mul_error)
next
  fix r
  assume "fifo_uint8_pop_mul fifo8 p m mem = Some r \<and> fst r \<noteq> 0"
  then show "snd r = (fifo8, mem)"
    by (elim conjE) (rule uint8_pop_mul_error)
next
  fix r
  assume "fifo_uint16_pop_mul fifo16 p m mem = Some r \<and> fst r \<noteq> 0"
  then show "snd r = (fifo16, mem)"
    by (elim conjE) (rule uint16_pop_mul_error)
next
  fix r
  assume "fifo_uint32_pop_mul fifo32 p m mem = Some r \<and> fst r \<noteq> 0"
  then show "snd r = (fifo32, mem)"
    by (elim conjE) (rule uint32_pop_mul_error)
next
  fix r
  assume "fifo_common_pop_mul cfifo p m mem = Some r \<and> fst r \<noteq> 0"
  then show "snd r = (cfifo, mem)"
    by (elim conjE) (rule common_pop_mul_error)
qed

theorem bulk_error_leaves_state_unchanged_witness:
  "fifo_uint8_push_mul (Some ex_fifo8) 300 5 zero_mem = Some (- 4, Some ex_fifo8, zero_mem) \<and>
   fifo_uint16_push_mul (Some ex_fifo16) 300 5 zero_mem = Some (- 4, Some ex_fifo16, zero_mem) \<and>
   fifo_uint32_push_mul (Some ex_fifo32) 300 5 zero_mem = Some (- 4, Some ex_fifo32, zero_mem) \<and>
   fifo_common_push_mul (Some ex_fifo_common) 300 5 zero_mem = Some (- 4, Some ex_fifo_common, zero_mem) \<and>
   fifo_uint8_pop_mul (Some ex_fifo8) 300 5 zero_mem = Some (- 4, Some ex_fifo8, zero_mem) \<and>
   fifo_uint16_pop_mul (Some ex_fifo16) 300 5 zero_mem = Some (- 4, Some ex_fifo16, zero_mem) \<and>
   fifo_uint32_pop_mul (Some ex_fifo32) 300 5 zero_mem = Some (- 4, Some ex_fifo32, zero_mem) \<and>
   fifo_common_pop_mul (Some ex_fifo_common) 300 5 zero_mem = Some (- 4, Some ex_fifo_common, zero_mem)"
proof -
  have s: "map_option fst (fifo_uint8_push_mul (Some ex_fifo8) 300 5 zero_mem) = Some (- 4)"
    "map_option fst (fifo_uint16_push_mul (Some ex_fifo16) 300 5 zero_mem) = Some (- 4)"
    "map_option fst (fifo_uint32_push_mul (Some ex_fifo32) 300 5 zero_mem) = Some (- 4)"
    "map_option fst (fifo_common_push_mul (Some ex_fifo_common) 300 5 zero_mem) = Some (- 4)"
    "map_option fst (fifo_uint8_pop_mul (Some ex_fifo8) 300 5 zero_mem) = Some (- 4)"
    "map_option fst (fifo_uint16_pop_mul (Some ex_fifo16) 300 5 zero_mem) = Some (- 4)"
    "map_option fst (fifo_uint32_pop_mul (Some ex_fifo32) 300 5 zero_mem) = Some (- 4)"
    "map_option fst (fifo_common_pop_mul (Some ex_fifo_common) 300 5 zero_mem) = Some (- 4)"
    by (simp_all add: fifo_uint8_push_mul_def fifo_uint16_push_mul_def
        fifo_uint32_push_mul_def fifo_common_push_mul_def fifo_uint8_pop_mul_def
        fifo_uint16_pop_mul_def fifo_uint32_pop_mul_def fifo_common_pop_mul_def)
  have unchanged: "x = Some (- 4, a, b)"
    if "map_option fst x = Some (- 4)" and "\<forall>r. x = Some r \<and> fst r \<noteq> 0 \<longrightarrow> snd r = (a, b)"
    for x :: "(int \<times> 'f \<times> mem) option" and a b
    using that by (cases x) (auto simp: prod_eq_iff)
  note t = bulk_error_leaves_state_unchanged
    [of "Some ex_fifo8" 300 5 zero_mem "Some ex_fifo16" "Some ex_fifo32" "Some ex_fifo_common"]
  note c1 = t [THEN conjunct1] and r1 = t [THEN conjunct2]
  note c2 = r1 [THEN conjunct1] and r2 = r1 [THEN conjunct2]
  note c3 = r2 [THEN conjunct1] and r3 = r2 [THEN conjunct2]
  note c4 = r3 [THEN conjunct1] and r4 = r3 [THEN conjunct2]
  note c5 = r4 [THEN conjunct1] and r5 = r4 [THEN conjunct2]
  note c6 = r5 [THEN conjunct1] and r6 = r5 [THEN conjunct2]
  note c7 = r6 [THEN conjunct1] and c8 = r6 [THEN conjunct2]
  show ?thesis
    by (intro conjI unchanged [OF s(1) c1] unchanged [OF s(2) c2] unchanged [OF s(3) c3]
        unchanged [OF s(4) c4] unchanged [OF s(5) c5] unchanged [OF s(6) c6]
        unchanged [OF s(7) c7] unchanged [OF s(8) c8])
qed

end
